theory Spec2Isabelle
  imports Main "HOL-Library.Word"
begin

unbundle bit_operations_syntax

section \<open>Bytes, buffers and results\<close>

text \<open>
  The codec (graphBinary.go, package gremlingo) writes to and reads from a
  \<^verbatim>\<open>*bytes.Buffer\<close>. A buffer is modelled by the list of its unread bytes: a write
  appends at the end, a read consumes from the front.
\<close>

type_synonym byte = "8 word"

text \<open>
  Go's \<^verbatim>\<open>error\<close> values met in the codec: the two end-of-input errors of package
  \<^verbatim>\<open>io\<close> and the strings passed to \<^verbatim>\<open>errors.New\<close>.
\<close>

datatype error = EOF | ErrUnexpectedEOF | errorString string

text \<open>
  A Go function of the codec returns a pair \<^verbatim>\<open>(value, error)\<close>, or it panics.
  \<open>Return v None\<close> is a return with a nil error, \<open>Return v (Some e)\<close> a return with
  error \<open>e\<close> (Go still returns the value \<open>v\<close> next to it).
\<close>

datatype 'a outcome = Panic | Return 'a "error option"

text \<open>
  \<^verbatim>\<open>binary.Write(buffer, binary.BigEndian, x)\<close> for an \<open>n\<close>-byte scalar: the most
  significant byte first. \<^verbatim>\<open>binary.Read\<close> is the inverse, on exactly \<open>n\<close> bytes.
\<close>

primrec be_bytes :: "nat \<Rightarrow> 'a::len word \<Rightarrow> byte list" where
  "be_bytes 0 w = []"
| "be_bytes (Suc n) w = ucast (drop_bit (8 * n) w) # be_bytes n w"

definition be_word :: "byte list \<Rightarrow> 'a::len word" where
  "be_word bs = foldl (\<lambda>acc b. push_bit 8 acc OR ucast b) 0 bs"

section \<open>The universe of Go values handed to the codec\<close>

text \<open>
  The codec takes and returns \<^verbatim>\<open>interface{}\<close>. The datatype lists the dynamic types
  the type switch of \<^verbatim>\<open>getSerializerToWrite\<close> tells apart, and the ones the readers
  produce. Strings are byte sequences, floats are kept as their IEEE-754 bit patterns
  (the codec only copies the bits), a \<^verbatim>\<open>uuid.UUID\<close> (a \<^verbatim>\<open>[16]byte\<close>) is a
  128-bit word whose most significant byte is the first byte of the array, Go's
  \<^verbatim>\<open>int\<close> is 64 bits wide (a 64-bit platform).
  \<open>GoSlice\<close> is a \<^verbatim>\<open>[]interface{}\<close>, \<open>GoTypedSlice\<close> a slice of any other type
  and \<open>GoArray\<close> an array other than a \<^verbatim>\<open>uuid.UUID\<close> (the elements of both boxed),
  \<open>GoMap\<close> a map given by its entries in the order in which
  \<^verbatim>\<open>MapKeys\<close> enumerates them. A \<^verbatim>\<open>bytecode\<close> is given by its step and its source
  instructions, each an operator with its arguments. \<open>GoTraverser\<close> is a
  \<^verbatim>\<open>Traverser\<close> struct value, \<open>GoTraverserPtr\<close> a \<^verbatim>\<open>*Traverser\<close>; \<open>GoOther\<close>
  stands for every other dynamic type, none of them a slice, an array or a map.
\<close>

datatype gvalue =
    GoNil
  | GoBool bool
  | GoUint8 "8 word"
  | GoInt16 "16 word"
  | GoInt32 "32 word"
  | GoInt64 "64 word"
  | GoInt "64 word"
  | GoUint16 "16 word"
  | GoUint32 "32 word"
  | GoBigInt int
  | GoFloat32 "32 word"
  | GoFloat64 "64 word"
  | GoString "byte list"
  | GoUUID "128 word"
  | GoSlice "gvalue list"
  | GoTypedSlice "gvalue list"
  | GoArray "gvalue list"
  | GoMap "(gvalue \<times> gvalue) list"
  | GoBytecode "(byte list \<times> gvalue list) list" "(byte list \<times> gvalue list) list"
  | GoTraverser "64 word" gvalue
  | GoTraverserPtr "64 word" gvalue
  | GoOther

section \<open>Data types and serializers\<close>

type_synonym DataType = byte

definition NullType :: DataType where "NullType = 0xFE"
definition IntType :: DataType where "IntType = 0x01"
definition LongType :: DataType where "LongType = 0x02"
definition StringType :: DataType where "StringType = 0x03"
definition DoubleType :: DataType where "DoubleType = 0x07"
definition FloatType :: DataType where "FloatType = 0x08"
definition ListType :: DataType where "ListType = 0x09"
definition MapType :: DataType where "MapType = 0x0a"
definition UUIDType :: DataType where "UUIDType = 0x0c"
definition BytecodeType :: DataType where "BytecodeType = 0x15"
definition TraverserType :: DataType where "TraverserType = 0x21"
definition ByteType :: DataType where "ByteType = 0x24"
definition ShortType :: DataType where "ShortType = 0x26"
definition BooleanType :: DataType where "BooleanType = 0x27"
definition BigIntegerType :: DataType where "BigIntegerType = 0x23"

definition getCodeByte :: "DataType \<Rightarrow> byte" where
  "getCodeByte dataType = dataType"

definition getCodeBytes :: "DataType \<Rightarrow> byte list" where
  "getCodeBytes dataType = [getCodeByte dataType]"

definition nullBytes :: "byte list" where
  "nullBytes = [getCodeByte NullType, 0x01]"

definition valueFlagNull :: byte where "valueFlagNull = 1"
definition valueFlagNone :: byte where "valueFlagNone = 0"

text \<open>
  The \<^verbatim>\<open>writer\<close> and \<^verbatim>\<open>reader\<close> fields of a serializer are function values. They
  are named here by a tag, one for each function literal or function that
  \<^verbatim>\<open>getSerializerToWrite\<close> and \<^verbatim>\<open>getSerializerToRead\<close> store; \<open>None\<close> is the nil
  function. The log handler is left out: logging does not change a result.
\<close>

datatype writer_id =
    W_bytecode | W_string | W_bigInt | W_long | W_int | W_short | W_byte | W_bool
  | W_uuid | W_float | W_double | W_map | W_list

datatype reader_id =
    R_traverser | R_string | R_bigInt | R_long | R_int | R_short | R_byte | R_boolean
  | R_uuid | R_float | R_double | R_map | R_list

record graphBinaryTypeSerializer =
  dataType :: DataType
  writer :: "writer_id option"
  reader :: "reader_id option"
  nullFlagReturn :: gvalue

definition unexpectedNull :: error where
  "unexpectedNull = errorString ''unexpected null value to writeType when nullable is false''"

definition notSlice :: error where
  "notSlice = errorString ''did not get the expected array or slice type as input''"

definition notMap :: error where
  "notMap = errorString ''did not get the expected map type as input''"

definition serializeDataTypeError :: error where
  "serializeDataTypeError = errorString ''unknown data type to serialize''"

definition deserializeDataTypeError :: error where
  "deserializeDataTypeError = errorString ''unknown data type to deserialize''"

text \<open>
  \<^verbatim>\<open>getSerializerToWrite\<close>: a type switch on the dynamic type of the value, then on
  its \<^verbatim>\<open>reflect\<close> kind. \<^verbatim>\<open>reflect.TypeOf(nil)\<close> is nil, so the call of \<^verbatim>\<open>Kind\<close>
  panics on a nil value; a struct, a pointer and every other kind is an error.
\<close>

fun getSerializerToWrite :: "gvalue \<Rightarrow> graphBinaryTypeSerializer option outcome" where
  "getSerializerToWrite (GoBytecode steps sources) =
     Return (Some \<lparr>dataType = BytecodeType, writer = Some W_bytecode, reader = None,
                    nullFlagReturn = GoString []\<rparr>) None"
| "getSerializerToWrite (GoString s) =
     Return (Some \<lparr>dataType = StringType, writer = Some W_string, reader = None,
                    nullFlagReturn = GoString []\<rparr>) None"
| "getSerializerToWrite (GoBigInt n) =
     Return (Some \<lparr>dataType = BigIntegerType, writer = Some W_bigInt, reader = None,
                    nullFlagReturn = GoBigInt 0\<rparr>) None"
| "getSerializerToWrite (GoInt64 v) =
     Return (Some \<lparr>dataType = LongType, writer = Some W_long, reader = None,
                    nullFlagReturn = GoInt 0\<rparr>) None"
| "getSerializerToWrite (GoInt v) =
     Return (Some \<lparr>dataType = LongType, writer = Some W_long, reader = None,
                    nullFlagReturn = GoInt 0\<rparr>) None"
| "getSerializerToWrite (GoUint32 v) =
     Return (Some \<lparr>dataType = LongType, writer = Some W_long, reader = None,
                    nullFlagReturn = GoInt 0\<rparr>) None"
| "getSerializerToWrite (GoInt32 v) =
     Return (Some \<lparr>dataType = IntType, writer = Some W_int, reader = None,
                    nullFlagReturn = GoInt 0\<rparr>) None"
| "getSerializerToWrite (GoUint16 v) =
     Return (Some \<lparr>dataType = IntType, writer = Some W_int, reader = None,
                    nullFlagReturn = GoInt 0\<rparr>) None"
| "getSerializerToWrite (GoInt16 v) =
     Return (Some \<lparr>dataType = ShortType, writer = Some W_short, reader = None,
                    nullFlagReturn = GoInt 0\<rparr>) None"
| "getSerializerToWrite (GoUint8 v) =
     Return (Some \<lparr>dataType = ByteType, writer = Some W_byte, reader = None,
                    nullFlagReturn = GoInt 0\<rparr>) None"
| "getSerializerToWrite (GoBool v) =
     Return (Some \<lparr>dataType = ByteType, writer = Some W_bool, reader = None,
                    nullFlagReturn = GoBool False\<rparr>) None"
| "getSerializerToWrite (GoUUID v) =
     Return (Some \<lparr>dataType = UUIDType, writer = Some W_uuid, reader = None,
                    nullFlagReturn = GoUUID 0\<rparr>) None"
| "getSerializerToWrite (GoFloat32 v) =
     Return (Some \<lparr>dataType = FloatType, writer = Some W_float, reader = None,
                    nullFlagReturn = GoInt 0\<rparr>) None"
| "getSerializerToWrite (GoFloat64 v) =
     Return (Some \<lparr>dataType = DoubleType, writer = Some W_double, reader = None,
                    nullFlagReturn = GoInt 0\<rparr>) None"
| "getSerializerToWrite (GoMap kvs) =
     Return (Some \<lparr>dataType = MapType, writer = Some W_map, reader = Some R_map,
                    nullFlagReturn = GoNil\<rparr>) None"
| "getSerializerToWrite (GoSlice xs) =
     Return (Some \<lparr>dataType = ListType, writer = Some W_list, reader = Some R_list,
                    nullFlagReturn = GoNil\<rparr>) None"
| "getSerializerToWrite (GoTypedSlice xs) =
     Return (Some \<lparr>dataType = ListType, writer = Some W_list, reader = Some R_list,
                    nullFlagReturn = GoNil\<rparr>) None"
| "getSerializerToWrite (GoArray xs) =
     Return (Some \<lparr>dataType = ListType, writer = Some W_list, reader = Some R_list,
                    nullFlagReturn = GoNil\<rparr>) None"
| "getSerializerToWrite GoNil = Panic"
| "getSerializerToWrite (GoTraverser bulk v) = Return None (Some serializeDataTypeError)"
| "getSerializerToWrite (GoTraverserPtr bulk v) = Return None (Some serializeDataTypeError)"
| "getSerializerToWrite GoOther = Return None (Some serializeDataTypeError)"

definition writeValueFlagNull :: "byte list \<Rightarrow> byte list" where
  "writeValueFlagNull buffer = buffer @ [valueFlagNull]"

definition writeValueFlagNone :: "byte list \<Rightarrow> byte list" where
  "writeValueFlagNone buffer = buffer @ [valueFlagNone]"

section \<open>Big integers\<close>

text \<open>
  \<^verbatim>\<open>big.Int.Bytes\<close> is the big-endian magnitude without leading zero bytes (empty
  for zero), \<^verbatim>\<open>big.Int.SetBytes\<close> reads a big-endian magnitude, \<^verbatim>\<open>big.Int.BitLen\<close>
  is the length of the magnitude in bits.
\<close>

fun nat_bytes :: "nat \<Rightarrow> byte list" where
  "nat_bytes n = (if n = 0 then [] else nat_bytes (n div 256) @ [of_nat (n mod 256)])"

declare nat_bytes.simps [simp del]

definition bytes_nat :: "byte list \<Rightarrow> nat" where
  "bytes_nat bs = foldl (\<lambda>acc b. acc * 256 + unat b) 0 bs"

fun BitLen :: "nat \<Rightarrow> nat" where
  "BitLen n = (if n = 0 then 0 else Suc (BitLen (n div 2)))"

declare BitLen.simps [simp del]

text \<open>
  \<^verbatim>\<open>getSignedBytesFromBigInt\<close>: the two's complement bytes of a \<^verbatim>\<open>*big.Int\<close>.
  \<open>None\<close> is the panic of an index out of range.
\<close>

definition getSignedBytesFromBigInt :: "int \<Rightarrow> byte list option" where
  "getSignedBytesFromBigInt n =
    (if sgn n = 1 then
       (let b = nat_bytes (nat n) in
        case b of [] \<Rightarrow> None
        | b0 # _ \<Rightarrow> if b0 AND 0x80 > 0 then Some (0 # b) else Some b)
     else if sgn n = -1 then
       (let length = (BitLen (nat \<bar>n\<bar>) div 8 + 1) * 8;
            b = nat_bytes (nat (n + 2 ^ length)) in
        case b of
          b0 # b1 # _ \<Rightarrow> if b0 = 0xff \<and> b1 AND 0x80 \<noteq> 0 then Some (tl b) else Some b
        | _ \<Rightarrow> Some b)
     else Some [])"

text \<open>\<^verbatim>\<open>getBigIntFromSignedBytes\<close>; \<open>None\<close> is again the panic of an index out of range.\<close>

definition getBigIntFromSignedBytes :: "byte list \<Rightarrow> int option" where
  "getBigIntFromSignedBytes b =
    (let newBigInt = int (bytes_nat b) in
     case b of [] \<Rightarrow> Some newBigInt
     | b0 # _ \<Rightarrow>
        if b0 AND 0x80 = 0x00 then Some (int (bytes_nat b))
        else
          (let length = ((List.length b * 8) div 8 + 1) * 8;
               b2 = nat_bytes (nat \<bar>newBigInt - 2 ^ length\<bar>) in
           case b2 of [] \<Rightarrow> None
           | _ # stripped \<Rightarrow>
              (case stripped of [] \<Rightarrow> None
               | c0 # rest \<Rightarrow>
                  Some (- int (bytes_nat (if c0 = 0x00 then rest else stripped))))))"

section \<open>Writing\<close>

text \<open>
  The writers take the buffer and return it with the bytes they appended, next to
  the error. (The byte slice the Go functions return on success is the contents of that
  same buffer.) A conversion \<^verbatim>\<open>int32(len(x))\<close> keeps the low 32 bits.

  \<^verbatim>\<open>binary.Write(buffer, binary.BigEndian, data)\<close> into a \<^verbatim>\<open>bytes.Buffer\<close> writes
  the bytes of a fixed-size value: a bool, a sized integer or float, or an array or slice of
  such values (a typed slice or array is taken to have the type of its elements as element
  type). Go's \<^verbatim>\<open>int\<close>, a string, a \<^verbatim>\<open>[]interface{}\<close>, a map, a struct with a field
  of such a type and a pointer to one have no fixed size: nothing is written and an error is
  returned (its message names the type, which is left out here). \<open>GoOther\<close> is taken to
  have no fixed size. On a nil interface \<^verbatim>\<open>binary.Write\<close> panics.

  The method \<^verbatim>\<open>write\<close> of the serializer is \<open>serializer_write\<close> here (\<open>write\<close> is
  a keyword of Isabelle), and \<open>call_writer w\<close> is the call of the function stored in the
  \<^verbatim>\<open>writer\<close> field.

  \<^verbatim>\<open>mapWriter\<close> looks every key up again with \<^verbatim>\<open>MapIndex\<close>; a key that is not equal
  to itself (a NaN) is not found, and \<^verbatim>\<open>Interface\<close> panics on the zero
  \<^verbatim>\<open>reflect.Value\<close>.
\<close>

definition isNaN32 :: "32 word \<Rightarrow> bool" where
  "isNaN32 w = (w AND 0x7F800000 = 0x7F800000 \<and> w AND 0x007FFFFF \<noteq> 0)"

definition isNaN64 :: "64 word \<Rightarrow> bool" where
  "isNaN64 w = (w AND 0x7FF0000000000000 = 0x7FF0000000000000 \<and> w AND 0x000FFFFFFFFFFFFF \<noteq> 0)"

fun has_NaN :: "gvalue \<Rightarrow> bool" where
  "has_NaN (GoFloat32 w) = isNaN32 w"
| "has_NaN (GoFloat64 w) = isNaN64 w"
| "has_NaN (GoArray xs) = (\<exists>x \<in> set xs. has_NaN x)"
| "has_NaN (GoTraverser bulk v) = has_NaN v"
| "has_NaN v = False"

primrec fixed_size_bytes :: "gvalue \<Rightarrow> byte list option" where
  "fixed_size_bytes GoNil = None"
| "fixed_size_bytes (GoBool a) = Some [of_bool a]"
| "fixed_size_bytes (GoUint8 a) = Some (be_bytes 1 a)"
| "fixed_size_bytes (GoInt16 a) = Some (be_bytes 2 a)"
| "fixed_size_bytes (GoInt32 a) = Some (be_bytes 4 a)"
| "fixed_size_bytes (GoInt64 a) = Some (be_bytes 8 a)"
| "fixed_size_bytes (GoInt a) = None"
| "fixed_size_bytes (GoUint16 a) = Some (be_bytes 2 a)"
| "fixed_size_bytes (GoUint32 a) = Some (be_bytes 4 a)"
| "fixed_size_bytes (GoBigInt a) = None"
| "fixed_size_bytes (GoFloat32 a) = Some (be_bytes 4 a)"
| "fixed_size_bytes (GoFloat64 a) = Some (be_bytes 8 a)"
| "fixed_size_bytes (GoString a) = None"
| "fixed_size_bytes (GoUUID a) = Some (be_bytes 16 a)"
| "fixed_size_bytes (GoSlice xs) = None"
| "fixed_size_bytes (GoTypedSlice xs) = map_option concat (those (map fixed_size_bytes xs))"
| "fixed_size_bytes (GoArray xs) = map_option concat (those (map fixed_size_bytes xs))"
| "fixed_size_bytes (GoMap kvs) = None"
| "fixed_size_bytes (GoBytecode steps sources) = None"
| "fixed_size_bytes (GoTraverser bulk v) = None"
| "fixed_size_bytes (GoTraverserPtr bulk v) = None"
| "fixed_size_bytes GoOther = None"

definition binaryWriteError :: error where
  "binaryWriteError = errorString ''binary.Write: invalid type''"

definition binary_Write :: "gvalue \<Rightarrow> byte list \<Rightarrow> byte list outcome" where
  "binary_Write data buffer =
    (case fixed_size_bytes data of
       Some bytes \<Rightarrow> Return (buffer @ bytes) None
     | None \<Rightarrow> if data = GoNil then Panic else Return buffer (Some binaryWriteError))"

function serializer_write :: "gvalue \<Rightarrow> byte list \<Rightarrow> byte list outcome"
and writeTypeValue ::
  "gvalue \<Rightarrow> byte list \<Rightarrow> graphBinaryTypeSerializer \<Rightarrow> bool \<Rightarrow> byte list outcome"
and call_writer :: "writer_id option \<Rightarrow> gvalue \<Rightarrow> byte list \<Rightarrow> byte list outcome"
and write_loop :: "gvalue list \<Rightarrow> byte list \<Rightarrow> byte list outcome"
and mapWriter_loop :: "(gvalue \<times> gvalue) list \<Rightarrow> byte list \<Rightarrow> byte list outcome"
and instructionSetWriter_loop :: "(byte list \<times> gvalue list) list \<Rightarrow> byte list \<Rightarrow> byte list outcome"
where
  "serializer_write valueObject buffer =
    (if valueObject = GoNil then Return (buffer @ nullBytes) None
     else case getSerializerToWrite valueObject of
       Panic \<Rightarrow> Panic
     | Return _ (Some err) \<Rightarrow> Return buffer (Some err)
     | Return None None \<Rightarrow> Panic
     | Return (Some typeSerializer) None \<Rightarrow>
         writeTypeValue valueObject (buffer @ getCodeBytes (dataType typeSerializer))
           typeSerializer True)"
| "writeTypeValue v buffer typeSerializer nullable =
    (if v = GoNil then
       (if \<not> nullable then Return buffer (Some unexpectedNull)
        else Return (writeValueFlagNull buffer) None)
     else call_writer (writer typeSerializer) v
            (if nullable then writeValueFlagNone buffer else buffer))"
| "call_writer w v buffer =
    (case w of
       None \<Rightarrow> Panic
     | Some W_bytecode \<Rightarrow>
        (case v of
           GoBytecode stepInstructions sourceInstructions \<Rightarrow>
             (case instructionSetWriter_loop stepInstructions
                     (buffer @ be_bytes 4 (of_nat (length stepInstructions) :: 32 word)) of
                Panic \<Rightarrow> Panic
              | Return buffer' (Some err) \<Rightarrow> Return buffer' (Some err)
              | Return buffer' None \<Rightarrow>
                  instructionSetWriter_loop sourceInstructions
                    (buffer' @ be_bytes 4 (of_nat (length sourceInstructions) :: 32 word)))
         | _ \<Rightarrow> Panic)
     | Some W_string \<Rightarrow>
        (case v of
           GoString s \<Rightarrow> Return (buffer @ be_bytes 4 (of_nat (length s) :: 32 word) @ s) None
         | _ \<Rightarrow> Panic)
     | Some W_bigInt \<Rightarrow>
        (case v of
           GoBigInt n \<Rightarrow>
             (case getSignedBytesFromBigInt n of
                None \<Rightarrow> Panic
              | Some signedBytes \<Rightarrow>
                  Return (buffer @ be_bytes 4 (of_nat (length signedBytes) :: 32 word)
                                 @ signedBytes) None)
         | _ \<Rightarrow> Panic)
     | Some W_long \<Rightarrow>
        (case v of
           GoInt x \<Rightarrow> binary_Write (GoInt64 x) buffer
         | GoUint32 x \<Rightarrow> binary_Write (GoInt64 (ucast x)) buffer
         | _ \<Rightarrow> binary_Write v buffer)
     | Some W_int \<Rightarrow>
        (case v of
           GoInt32 x \<Rightarrow> Return (buffer @ be_bytes 4 x) None
         | GoUint16 x \<Rightarrow> Return (buffer @ be_bytes 4 (ucast x :: 32 word)) None
         | _ \<Rightarrow> Panic)
     | Some W_short \<Rightarrow>
        (case v of GoInt16 x \<Rightarrow> Return (buffer @ be_bytes 2 x) None | _ \<Rightarrow> Panic)
     | Some W_byte \<Rightarrow>
        (case v of GoUint8 x \<Rightarrow> Return (buffer @ be_bytes 1 x) None | _ \<Rightarrow> Panic)
     | Some W_bool \<Rightarrow>
        (case v of GoBool x \<Rightarrow> Return (buffer @ [of_bool x]) None | _ \<Rightarrow> Panic)
     | Some W_uuid \<Rightarrow> binary_Write v buffer
     | Some W_float \<Rightarrow> binary_Write v buffer
     | Some W_double \<Rightarrow> binary_Write v buffer
     | Some W_map \<Rightarrow>
        (case v of
           GoMap kvs \<Rightarrow>
             mapWriter_loop kvs (buffer @ be_bytes 4 (of_nat (length kvs) :: 32 word))
         | _ \<Rightarrow> Return buffer (Some notMap))
     | Some W_list \<Rightarrow>
        (case v of
           GoSlice xs \<Rightarrow>
             write_loop xs (buffer @ be_bytes 4 (of_nat (length xs) :: 32 word))
         | GoTypedSlice xs \<Rightarrow>
             write_loop xs (buffer @ be_bytes 4 (of_nat (length xs) :: 32 word))
         | GoArray xs \<Rightarrow>
             write_loop xs (buffer @ be_bytes 4 (of_nat (length xs) :: 32 word))
         | GoUUID x \<Rightarrow>
             Return (buffer @ be_bytes 4 (16 :: 32 word)
                       @ concat (map (\<lambda>b. [ByteType, valueFlagNone, b]) (be_bytes 16 x))) None
         | _ \<Rightarrow> Return buffer (Some notSlice)))"
| "write_loop [] buffer = Return buffer None"
| "write_loop (x # xs) buffer =
    (case serializer_write x buffer of
       Panic \<Rightarrow> Panic
     | Return buffer' (Some err) \<Rightarrow> Return buffer' (Some err)
     | Return buffer' None \<Rightarrow> write_loop xs buffer')"
| "mapWriter_loop [] buffer = Return buffer None"
| "mapWriter_loop ((k, val) # kvs) buffer =
    (case serializer_write k buffer of
       Panic \<Rightarrow> Panic
     | Return buffer' (Some err) \<Rightarrow> Return buffer' (Some err)
     | Return buffer' None \<Rightarrow>
         if has_NaN k then Panic
         else (case serializer_write val buffer' of
                 Panic \<Rightarrow> Panic
               | Return buffer'' (Some err) \<Rightarrow> Return buffer'' (Some err)
               | Return buffer'' None \<Rightarrow> mapWriter_loop kvs buffer''))"
| "instructionSetWriter_loop [] buffer = Return buffer None"
| "instructionSetWriter_loop ((operator, arguments) # instructions) buffer =
    (case write_loop arguments
            (buffer @ be_bytes 4 (of_nat (length operator) :: 32 word) @ operator
                    @ be_bytes 4 (of_nat (length arguments) :: 32 word)) of
       Panic \<Rightarrow> Panic
     | Return buffer' (Some err) \<Rightarrow> Return buffer' (Some err)
     | Return buffer' None \<Rightarrow> instructionSetWriter_loop instructions buffer')"
  by pat_completeness auto

termination
  by (relation "measure (\<lambda>x. case x of
      Inl (Inl (v, b)) \<Rightarrow> 3 * size v + 2
    | Inl (Inr (Inl (v, b, t, n))) \<Rightarrow> 3 * size v + 1
    | Inl (Inr (Inr (w, v, b))) \<Rightarrow> 3 * size v
    | Inr (Inl (xs, b)) \<Rightarrow> 3 * size_list size xs + 1
    | Inr (Inr (Inl (kvs, b))) \<Rightarrow> 3 * size_list (size_prod size size) kvs + 1
    | Inr (Inr (Inr (ins, b))) \<Rightarrow>
        3 * size_list (size_prod (\<lambda>_. 0) (size_list size)) ins + 1)")
    simp_all


declare serializer_write.simps [simp del] writeTypeValue.simps [simp del]
  call_writer.simps [simp del]

definition writeType ::
  "gvalue \<Rightarrow> byte list \<Rightarrow> graphBinaryTypeSerializer \<Rightarrow> byte list outcome" where
  "writeType v buffer typeSerializer = writeTypeValue v buffer typeSerializer True"

text \<open>\<^verbatim>\<open>writeValue\<close>: a value without its type code.\<close>

definition writeValue :: "gvalue \<Rightarrow> byte list \<Rightarrow> bool \<Rightarrow> byte list outcome" where
  "writeValue v buffer nullable =
    (if v = GoNil then
       (if \<not> nullable then Return buffer (Some unexpectedNull)
        else Return (writeValueFlagNull buffer) None)
     else case getSerializerToWrite v of
       Panic \<Rightarrow> Panic
     | Return _ (Some err) \<Rightarrow> Return buffer (Some err)
     | Return None None \<Rightarrow> Panic
     | Return (Some typeSerializer) None \<Rightarrow>
         writeTypeValue v buffer typeSerializer nullable)"

section \<open>Reading\<close>

text \<open>
  A reader takes the unread bytes and returns its value together with the number of
  bytes it consumed; the caller goes on with the rest, \<open>drop c buffer\<close>.

  \<^verbatim>\<open>buffer.ReadByte\<close> fails with \<^verbatim>\<open>io.EOF\<close> on an empty buffer.
  \<^verbatim>\<open>binary.Read\<close> of an \<open>n\<close>-byte scalar goes through \<^verbatim>\<open>io.ReadFull\<close>: \<^verbatim>\<open>io.EOF\<close>
  if no byte is left, \<^verbatim>\<open>io.ErrUnexpectedEOF\<close> if fewer than \<open>n\<close> are (they are
  consumed), and the variable read into keeps its zero value on an error.
  \<^verbatim>\<open>buffer.Read(p)\<close> copies what is there into \<open>p\<close> and fails, with \<^verbatim>\<open>io.EOF\<close>, only
  when the buffer is empty and \<open>p\<close> is not; the rest of \<open>p\<close> keeps its zero bytes.
  In \<^verbatim>\<open>return val, binary.Read(buffer, binary.BigEndian, &val)\<close> the call is evaluated
  before \<^verbatim>\<open>val\<close> is loaded, as the Go compiler does: the value returned is the one read.
\<close>

definition ReadByte :: "byte list \<Rightarrow> byte \<times> error option" where
  "ReadByte buffer = (case buffer of [] \<Rightarrow> (0, Some EOF) | b # _ \<Rightarrow> (b, None))"

definition binary_Read :: "nat \<Rightarrow> byte list \<Rightarrow> error + byte list" where
  "binary_Read n buffer =
    (if buffer = [] then Inl EOF
     else if length buffer < n then Inl ErrUnexpectedEOF
     else Inr (take n buffer))"

definition buffer_Read :: "nat \<Rightarrow> byte list \<Rightarrow> byte list \<times> error option" where
  "buffer_Read n buffer =
    (if buffer = [] then (replicate n 0, if n = 0 then None else Some EOF)
     else (take n buffer @ replicate (n - length buffer) 0, None))"

text \<open>
  \<^verbatim>\<open>getSerializerToRead\<close>. The serializer of a list carries \<^verbatim>\<open>IntType\<close> as its data
  type, as in the source.
\<close>

definition getSerializerToRead :: "byte \<Rightarrow> graphBinaryTypeSerializer option outcome" where
  "getSerializerToRead typ =
    (if typ = getCodeByte TraverserType then
       Return (Some \<lparr>dataType = TraverserType, writer = None, reader = Some R_traverser,
                      nullFlagReturn = GoString []\<rparr>) None
     else if typ = getCodeByte StringType then
       Return (Some \<lparr>dataType = StringType, writer = None, reader = Some R_string,
                      nullFlagReturn = GoString []\<rparr>) None
     else if typ = getCodeByte BigIntegerType then
       Return (Some \<lparr>dataType = BigIntegerType, writer = None, reader = Some R_bigInt,
                      nullFlagReturn = GoInt 0\<rparr>) None
     else if typ = getCodeByte LongType then
       Return (Some \<lparr>dataType = LongType, writer = None, reader = Some R_long,
                      nullFlagReturn = GoInt 0\<rparr>) None
     else if typ = getCodeByte IntType then
       Return (Some \<lparr>dataType = IntType, writer = None, reader = Some R_int,
                      nullFlagReturn = GoInt 0\<rparr>) None
     else if typ = getCodeByte ShortType then
       Return (Some \<lparr>dataType = ShortType, writer = None, reader = Some R_short,
                      nullFlagReturn = GoInt 0\<rparr>) None
     else if typ = getCodeByte ByteType then
       Return (Some \<lparr>dataType = ByteType, writer = None, reader = Some R_byte,
                      nullFlagReturn = GoInt 0\<rparr>) None
     else if typ = getCodeByte BooleanType then
       Return (Some \<lparr>dataType = BooleanType, writer = None, reader = Some R_boolean,
                      nullFlagReturn = GoInt 0\<rparr>) None
     else if typ = getCodeByte UUIDType then
       Return (Some \<lparr>dataType = UUIDType, writer = None, reader = Some R_uuid,
                      nullFlagReturn = GoUUID 0\<rparr>) None
     else if typ = getCodeByte FloatType then
       Return (Some \<lparr>dataType = FloatType, writer = None, reader = Some R_float,
                      nullFlagReturn = GoInt 0\<rparr>) None
     else if typ = getCodeByte DoubleType then
       Return (Some \<lparr>dataType = DoubleType, writer = None, reader = Some R_double,
                      nullFlagReturn = GoInt 0\<rparr>) None
     else if typ = getCodeByte MapType then
       Return (Some \<lparr>dataType = MapType, writer = Some W_map, reader = Some R_map,
                      nullFlagReturn = GoNil\<rparr>) None
     else if typ = getCodeByte ListType then
       Return (Some \<lparr>dataType = IntType, writer = Some W_list, reader = Some R_list,
                      nullFlagReturn = GoNil\<rparr>) None
     else Return None (Some deserializeDataTypeError))"

text \<open>
  \<^verbatim>\<open>valMap[key] = val\<close> on a \<^verbatim>\<open>map[interface{}]interface{}\<close>. Hashing a key whose
  dynamic type is a slice or a map, or a struct or an array holding one, panics; an array of
  hashable elements is hashable. Two keys are the same
  entry when Go's \<^verbatim>\<open>==\<close> on interfaces says so: floats compare as IEEE-754 numbers (a
  NaN is equal to nothing, the two zeros are equal), a \<^verbatim>\<open>Traverser\<close> struct field by
  field, an array element by element (arrays are told apart by their elements here; no
  reader returns an array), pointers by address. The \<^verbatim>\<open>*big.Int\<close> a reader returns is freshly allocated,
  so it is equal to no key already in the map. An assignment to a key that is there replaces
  the stored key too. The map is kept as the list of its entries, a new key at the end.
\<close>

fun hashable :: "gvalue \<Rightarrow> bool" where
  "hashable (GoSlice xs) = False"
| "hashable (GoTypedSlice xs) = False"
| "hashable (GoArray xs) = (\<forall>x \<in> set xs. hashable x)"
| "hashable (GoMap kvs) = False"
| "hashable (GoBytecode steps sources) = False"
| "hashable (GoTraverser bulk v) = hashable v"
| "hashable GoOther = False"
| "hashable v = True"

definition float32_eq :: "32 word \<Rightarrow> 32 word \<Rightarrow> bool" where
  "float32_eq a b =
    (\<not> isNaN32 a \<and> \<not> isNaN32 b \<and> (a = b \<or> (a AND 0x7FFFFFFF = 0 \<and> b AND 0x7FFFFFFF = 0)))"

definition float64_eq :: "64 word \<Rightarrow> 64 word \<Rightarrow> bool" where
  "float64_eq a b =
    (\<not> isNaN64 a \<and> \<not> isNaN64 b \<and>
     (a = b \<or> (a AND 0x7FFFFFFFFFFFFFFF = 0 \<and> b AND 0x7FFFFFFFFFFFFFFF = 0)))"

primrec go_eq :: "gvalue \<Rightarrow> gvalue \<Rightarrow> bool" where
  "go_eq GoNil y = (y = GoNil)"
| "go_eq (GoBool a) y = (y = GoBool a)"
| "go_eq (GoUint8 a) y = (y = GoUint8 a)"
| "go_eq (GoInt16 a) y = (y = GoInt16 a)"
| "go_eq (GoInt32 a) y = (y = GoInt32 a)"
| "go_eq (GoInt64 a) y = (y = GoInt64 a)"
| "go_eq (GoInt a) y = (y = GoInt a)"
| "go_eq (GoUint16 a) y = (y = GoUint16 a)"
| "go_eq (GoUint32 a) y = (y = GoUint32 a)"
| "go_eq (GoBigInt a) y = False"
| "go_eq (GoFloat32 a) y = (case y of GoFloat32 b \<Rightarrow> float32_eq a b | _ \<Rightarrow> False)"
| "go_eq (GoFloat64 a) y = (case y of GoFloat64 b \<Rightarrow> float64_eq a b | _ \<Rightarrow> False)"
| "go_eq (GoString a) y = (y = GoString a)"
| "go_eq (GoUUID a) y = (y = GoUUID a)"
| "go_eq (GoSlice xs) y = (y = GoSlice xs)"
| "go_eq (GoTypedSlice xs) y = (y = GoTypedSlice xs)"
| "go_eq (GoArray xs) y =
    (case y of GoArray ys \<Rightarrow> list_all2 (\<lambda>eq y'. eq y') (map go_eq xs) ys | _ \<Rightarrow> False)"
| "go_eq (GoMap kvs) y = (y = GoMap kvs)"
| "go_eq (GoBytecode steps sources) y = (y = GoBytecode steps sources)"
| "go_eq (GoTraverser bulk v) y =
    (case y of GoTraverser bulk' v' \<Rightarrow> bulk = bulk' \<and> go_eq v v' | _ \<Rightarrow> False)"
| "go_eq (GoTraverserPtr bulk v) y = False"
| "go_eq GoOther y = (y = GoOther)"

fun map_assign :: "(gvalue \<times> gvalue) list \<Rightarrow> gvalue \<Rightarrow> gvalue \<Rightarrow> (gvalue \<times> gvalue) list" where
  "map_assign [] key val = [(key, val)]"
| "map_assign ((k, v) # valMap) key val =
    (if go_eq k key then (key, val) # valMap else (k, v) # map_assign valMap key val)"

definition isNullError :: error where
  "isNullError = errorString ''expected isNull check to be true for NullType''"


text \<open>
  The readers that do not call back into the serializer. A negative length makes
  \<^verbatim>\<open>make([]byte, size)\<close> panic. \<^verbatim>\<open>bigIntReader\<close> reads its bytes one at a time and
  stops with \<^verbatim>\<open>io.EOF\<close> at the first one that is missing.
\<close>

definition stringReader :: "byte list \<Rightarrow> (gvalue \<times> nat) outcome" where
  "stringReader buffer =
    (case binary_Read 4 buffer of
       Inl err \<Rightarrow> Return (GoNil, min 4 (length buffer)) (Some err)
     | Inr bs \<Rightarrow>
        (let size = (be_word bs :: 32 word) in
         if sint size < 0 then Panic
         else (case buffer_Read (nat (sint size)) (drop 4 buffer) of
                 (valBytes, err) \<Rightarrow>
                    Return (GoString valBytes, 4 + min (nat (sint size)) (length buffer - 4)) err)))"

definition bigIntReader :: "byte list \<Rightarrow> (gvalue \<times> nat) outcome" where
  "bigIntReader buffer =
    (case binary_Read 4 buffer of
       Inl err \<Rightarrow> Return (GoNil, min 4 (length buffer)) (Some err)
     | Inr bs \<Rightarrow>
        (let size = (be_word bs :: 32 word) in
         if sint size < 0 then Panic
         else if length buffer - 4 < nat (sint size) then Return (GoNil, length buffer) (Some EOF)
         else (case getBigIntFromSignedBytes (take (nat (sint size)) (drop 4 buffer)) of
                 None \<Rightarrow> Panic
               | Some n \<Rightarrow> Return (GoBigInt n, 4 + nat (sint size)) None)))"

definition longReader :: "byte list \<Rightarrow> (gvalue \<times> nat) outcome" where
  "longReader buffer =
    (case binary_Read 8 buffer of
       Inl err \<Rightarrow> Return (GoInt64 0, min 8 (length buffer)) (Some err)
     | Inr bs \<Rightarrow> Return (GoInt64 (be_word bs), 8) None)"

definition intReader :: "byte list \<Rightarrow> (gvalue \<times> nat) outcome" where
  "intReader buffer =
    (case binary_Read 4 buffer of
       Inl err \<Rightarrow> Return (GoInt32 0, min 4 (length buffer)) (Some err)
     | Inr bs \<Rightarrow> Return (GoInt32 (be_word bs), 4) None)"

definition shortReader :: "byte list \<Rightarrow> (gvalue \<times> nat) outcome" where
  "shortReader buffer =
    (case binary_Read 2 buffer of
       Inl err \<Rightarrow> Return (GoInt16 0, min 2 (length buffer)) (Some err)
     | Inr bs \<Rightarrow> Return (GoInt16 (be_word bs), 2) None)"

definition byteReader :: "byte list \<Rightarrow> (gvalue \<times> nat) outcome" where
  "byteReader buffer =
    (case binary_Read 1 buffer of
       Inl err \<Rightarrow> Return (GoUint8 0, min 1 (length buffer)) (Some err)
     | Inr bs \<Rightarrow> Return (GoUint8 (be_word bs), 1) None)"

definition booleanReader :: "byte list \<Rightarrow> (gvalue \<times> nat) outcome" where
  "booleanReader buffer =
    (case binary_Read 1 buffer of
       Inl err \<Rightarrow> Return (GoBool False, min 1 (length buffer)) (Some err)
     | Inr bs \<Rightarrow> Return (GoBool ((be_word bs :: 8 word) \<noteq> 0), 1) None)"

definition uuidReader :: "byte list \<Rightarrow> (gvalue \<times> nat) outcome" where
  "uuidReader buffer =
    (case buffer_Read 16 buffer of
       (valBytes, Some err) \<Rightarrow> Return (GoUUID 0, 0) (Some err)
     | (valBytes, None) \<Rightarrow> Return (GoUUID (be_word valBytes), min 16 (length buffer)) None)"

definition floatReader :: "byte list \<Rightarrow> (gvalue \<times> nat) outcome" where
  "floatReader buffer =
    (case binary_Read 4 buffer of
       Inl err \<Rightarrow> Return (GoFloat32 0, min 4 (length buffer)) (Some err)
     | Inr bs \<Rightarrow> Return (GoFloat32 (be_word bs), 4) None)"

definition doubleReader :: "byte list \<Rightarrow> (gvalue \<times> nat) outcome" where
  "doubleReader buffer =
    (case binary_Read 8 buffer of
       Inl err \<Rightarrow> Return (GoFloat64 0, min 8 (length buffer)) (Some err)
     | Inr bs \<Rightarrow> Return (GoFloat64 (be_word bs), 8) None)"

text \<open>
  The method \<^verbatim>\<open>read\<close> of the serializer is \<open>serializer_read\<close>, and \<open>call_reader r\<close> is
  the call of the function stored in the \<^verbatim>\<open>reader\<close> field. The loops of
  \<^verbatim>\<open>listReader\<close> and \<^verbatim>\<open>mapReader\<close> run \<^verbatim>\<open>int(size)\<close> times, that is not at all for
  a negative size.
\<close>

function serializer_read :: "byte list \<Rightarrow> (gvalue \<times> nat) outcome"
and readTypeValue ::
  "byte list \<Rightarrow> graphBinaryTypeSerializer \<Rightarrow> bool \<Rightarrow> (gvalue \<times> nat) outcome"
and call_reader :: "reader_id option \<Rightarrow> byte list \<Rightarrow> (gvalue \<times> nat) outcome"
and listReader_loop :: "nat \<Rightarrow> byte list \<Rightarrow> gvalue list \<Rightarrow> (gvalue \<times> nat) outcome"
and mapReader_loop ::
  "nat \<Rightarrow> byte list \<Rightarrow> (gvalue \<times> gvalue) list \<Rightarrow> (gvalue \<times> nat) outcome"
where
  "serializer_read buffer =
    (case buffer of
       [] \<Rightarrow> Return (GoNil, 0) (Some EOF)
     | typeCode # rest \<Rightarrow>
        if typeCode = NullType then
          (case rest of
             [] \<Rightarrow> Return (GoNil, 1) (Some isNullError)
           | isNull # _ \<Rightarrow>
               if isNull \<noteq> 1 then Return (GoNil, 2) (Some isNullError)
               else Return (GoNil, 2) None)
        else
          (case getSerializerToRead typeCode of
             Panic \<Rightarrow> Panic
           | Return _ (Some err) \<Rightarrow> Return (GoNil, 1) (Some err)
           | Return None None \<Rightarrow> Panic
           | Return (Some typeSerializer) None \<Rightarrow>
               (case readTypeValue rest typeSerializer True of
                  Panic \<Rightarrow> Panic
                | Return (v, c) err \<Rightarrow> Return (v, 1 + c) err)))"
| "readTypeValue buffer typeSerializer nullable =
    (if nullable then
       (case buffer of
          [] \<Rightarrow> Return (GoNil, 0) (Some EOF)
        | nullFlag # rest \<Rightarrow>
            if nullFlag = valueFlagNull then Return (nullFlagReturn typeSerializer, 1) None
            else (case call_reader (reader typeSerializer) rest of
                    Panic \<Rightarrow> Panic
                  | Return (v, c) err \<Rightarrow> Return (v, 1 + c) err))
     else call_reader (reader typeSerializer) buffer)"
| "call_reader r buffer =
    (case r of
       None \<Rightarrow> Panic
     | Some R_traverser \<Rightarrow>
        (case binary_Read 8 buffer of
           Inl err \<Rightarrow> Return (GoNil, min 8 (length buffer)) (Some err)
         | Inr bs \<Rightarrow>
            (case serializer_read (drop 8 buffer) of
               Panic \<Rightarrow> Panic
             | Return (v, c) (Some err) \<Rightarrow> Return (GoNil, 8 + c) (Some err)
             | Return (v, c) None \<Rightarrow> Return (GoTraverser (be_word bs) v, 8 + c) None))
     | Some R_string \<Rightarrow> stringReader buffer
     | Some R_bigInt \<Rightarrow> bigIntReader buffer
     | Some R_long \<Rightarrow> longReader buffer
     | Some R_int \<Rightarrow> intReader buffer
     | Some R_short \<Rightarrow> shortReader buffer
     | Some R_byte \<Rightarrow> byteReader buffer
     | Some R_boolean \<Rightarrow> booleanReader buffer
     | Some R_uuid \<Rightarrow> uuidReader buffer
     | Some R_float \<Rightarrow> floatReader buffer
     | Some R_double \<Rightarrow> doubleReader buffer
     | Some R_map \<Rightarrow>
        (case binary_Read 4 buffer of
           Inl err \<Rightarrow> Return (GoNil, min 4 (length buffer)) (Some err)
         | Inr bs \<Rightarrow>
            (case mapReader_loop (nat (sint (be_word bs :: 32 word))) (drop 4 buffer) [] of
               Panic \<Rightarrow> Panic
             | Return (v, c) err \<Rightarrow> Return (v, 4 + c) err))
     | Some R_list \<Rightarrow>
        (case binary_Read 4 buffer of
           Inl err \<Rightarrow> Return (GoNil, min 4 (length buffer)) (Some err)
         | Inr bs \<Rightarrow>
            (case listReader_loop (nat (sint (be_word bs :: 32 word))) (drop 4 buffer) [] of
               Panic \<Rightarrow> Panic
             | Return (v, c) err \<Rightarrow> Return (v, 4 + c) err)))"
| "listReader_loop n buffer valList =
    (if n = 0 then Return (GoSlice valList, 0) None
     else
       (case serializer_read buffer of
          Panic \<Rightarrow> Panic
        | Return (val, c) (Some err) \<Rightarrow> Return (GoNil, c) (Some err)
        | Return (val, c) None \<Rightarrow>
           (case listReader_loop (n - 1) (drop c buffer) (valList @ [val]) of
              Panic \<Rightarrow> Panic
            | Return (v, c') err \<Rightarrow> Return (v, c + c') err)))"
| "mapReader_loop n buffer valMap =
    (if n = 0 then Return (GoMap valMap, 0) None
     else
       (case serializer_read buffer of
          Panic \<Rightarrow> Panic
        | Return (key, c) (Some err) \<Rightarrow> Return (GoNil, c) (Some err)
        | Return (key, c) None \<Rightarrow>
           (case serializer_read (drop c buffer) of
              Panic \<Rightarrow> Panic
            | Return (val, c') (Some err) \<Rightarrow> Return (GoNil, c + c') (Some err)
            | Return (val, c') None \<Rightarrow>
               if \<not> hashable key then Panic
               else
                 (case mapReader_loop (n - 1) (drop (c + c') buffer) (map_assign valMap key val) of
                    Panic \<Rightarrow> Panic
                  | Return (v, c'') err \<Rightarrow> Return (v, c + c' + c'') err))))"
  by pat_completeness auto

termination
  by (relation "measures
       [\<lambda>x. case x of
          Inl (Inl b) \<Rightarrow> length b
        | Inl (Inr (b, t, n)) \<Rightarrow> length b
        | Inr (Inl (r, b)) \<Rightarrow> length b
        | Inr (Inr (Inl (n, b, a))) \<Rightarrow> length b
        | Inr (Inr (Inr (n, b, a))) \<Rightarrow> length b,
        \<lambda>x. case x of
          Inl (Inl b) \<Rightarrow> 0
        | Inl (Inr (b, t, n)) \<Rightarrow> 3
        | Inr (Inl (r, b)) \<Rightarrow> 2
        | Inr (Inr (Inl (n, b, a))) \<Rightarrow> 1
        | Inr (Inr (Inr (n, b, a))) \<Rightarrow> 1,
        \<lambda>x. case x of
          Inl (Inl b) \<Rightarrow> 0
        | Inl (Inr (b, t, n)) \<Rightarrow> 0
        | Inr (Inl (r, b)) \<Rightarrow> 0
        | Inr (Inr (Inl (n, b, a))) \<Rightarrow> n
        | Inr (Inr (Inr (n, b, a))) \<Rightarrow> n]")
    auto

declare serializer_read.simps [simp del] readTypeValue.simps [simp del]
  call_reader.simps [simp del] listReader_loop.simps [simp del] mapReader_loop.simps [simp del]

definition readType ::
  "byte list \<Rightarrow> graphBinaryTypeSerializer \<Rightarrow> (gvalue \<times> nat) outcome" where
  "readType buffer typeSerializer = readTypeValue buffer typeSerializer True"

definition nullInput :: error where
  "nullInput = errorString ''input cannot be null''"

definition unmatchedDataType :: error where
  "unmatchedDataType =
     errorString ''datatype readType from input buffer different from requested datatype''"

text \<open>
  \<^verbatim>\<open>readValue\<close>. The buffer is a pointer, \<open>None\<close> when nil. Both errors after the type
  check are dropped: the one of \<^verbatim>\<open>getSerializerToRead\<close>, after which the call of
  \<^verbatim>\<open>readTypeValue\<close>, a method with a value receiver, dereferences a nil pointer and
  panics; and the one of \<^verbatim>\<open>readTypeValue\<close>.
\<close>

definition readValue :: "byte list option \<Rightarrow> byte \<Rightarrow> bool \<Rightarrow> (gvalue \<times> nat) outcome" where
  "readValue buffer typ nullable =
    (case buffer of
       None \<Rightarrow> Return (GoNil, 0) (Some nullInput)
     | Some bytes \<Rightarrow>
        (case ReadByte bytes of
           (typeCode, Some err) \<Rightarrow> Return (GoNil, 0) (Some err)
         | (typeCode, None) \<Rightarrow>
            if typeCode \<noteq> typ then Return (GoNil, 1) (Some unmatchedDataType)
            else
              (case getSerializerToRead typ of
                 Panic \<Rightarrow> Panic
               | Return None _ \<Rightarrow> Panic
               | Return (Some typeSerializer) _ \<Rightarrow>
                  (case readTypeValue (drop 1 bytes) typeSerializer nullable of
                     Panic \<Rightarrow> Panic
                   | Return (val, c) _ \<Rightarrow> Return (val, 1 + c) None))))"

section \<open>The ResultSet\<close>

text \<open>
  A \<^verbatim>\<open>Result\<close> wraps one value (its declaration is not part of the sources at hand;
  \<^verbatim>\<open>addResult\<close> builds it as \<^verbatim>\<open>&Result{v}\<close> and reads \<^verbatim>\<open>r.result\<close>).
  \<^verbatim>\<open>r.GetType().Kind()\<close> is taken to be the \<^verbatim>\<open>reflect\<close> kind of that value, as the
  name says: \<open>None\<close> for a nil value, whose type is nil, so that the call of \<^verbatim>\<open>Kind\<close>
  panics.
\<close>

datatype Result = Result (result: gvalue)

datatype Kind = Array | Slice | OtherKind

fun GetType_Kind :: "Result \<Rightarrow> Kind option" where
  "GetType_Kind (Result GoNil) = None"
| "GetType_Kind (Result (GoSlice xs)) = Some Slice"
| "GetType_Kind (Result (GoTypedSlice xs)) = Some Slice"
| "GetType_Kind (Result (GoArray xs)) = Some Array"
| "GetType_Kind (Result (GoUUID u)) = Some Array"
| "GetType_Kind (Result v) = Some OtherKind"

text \<open>
  The \<^verbatim>\<open>channelResultSet\<close> (resultSet.go). \<open>channel\<close> holds the results sent and not
  yet received, oldest first, and \<open>capacity\<close> is the size the channel was made with;
  \<open>closed\<close> stands for the field of that name and for the state of the channel, which
  \<^verbatim>\<open>Close\<close> changes together. \<open>waitSignal\<close> tells whether a wait channel is registered
  (the field is not nil), \<open>channelMux\<close> whether that mutex is locked, \<open>resultErr\<close> is the
  field \<^verbatim>\<open>err\<close>. The status attributes are left out: no function below reads them.
\<close>

record channelResultSet =
  channel :: "Result list"
  capacity :: nat
  requestID :: string
  aggregateTo :: string
  closed :: bool
  resultErr :: "error option"
  waitSignal :: bool
  channelMux :: bool

definition defaultCapacity :: nat where
  "defaultCapacity = 1000"

definition newChannelResultSetCapacity :: "string \<Rightarrow> nat \<Rightarrow> channelResultSet" where
  "newChannelResultSetCapacity requestID' channelSize =
     \<lparr>channel = [], capacity = channelSize, requestID = requestID', aggregateTo = [],
      closed = False, resultErr = None, waitSignal = False, channelMux = False\<rparr>"

definition newChannelResultSet :: "string \<Rightarrow> channelResultSet" where
  "newChannelResultSet requestID' = newChannelResultSetCapacity requestID' defaultCapacity"

text \<open>
  The methods run in different goroutines and block: on \<^verbatim>\<open>channelMux\<close>, on a send to a
  full channel, on the receive from the wait channel. So a call is modelled by the steps
  it takes, and the state holds, next to the ResultSet, the place a goroutine has reached
  in a call of \<^verbatim>\<open>IsEmpty\<close> and in a call of \<^verbatim>\<open>addResult\<close>:

  \<^item> \<open>AtLock\<close>: \<^verbatim>\<open>IsEmpty\<close> is about to lock \<^verbatim>\<open>channelMux\<close> and look at the queue (the
    call has just been made, or has been made again after a signal);
  \<^item> \<open>AtSecondTest\<close>: holding \<^verbatim>\<open>channelMux\<close>, it has found the first condition false
    (the queue was not empty, or the ResultSet is closed); the second condition, which reads
    the length of the channel again, comes next;
  \<^item> \<open>AtWaitForSignal\<close>: it has found the queue empty and open and has unlocked
    \<^verbatim>\<open>channelMux\<close>; the call of \<^verbatim>\<open>waitForSignal\<close> comes next;
  \<^item> \<open>Waiting\<close>: \<^verbatim>\<open>waitForSignal\<close> has registered its channel and blocks on the receive
    from it;
  \<^item> \<open>Returned b\<close>: \<^verbatim>\<open>IsEmpty\<close> has returned \<open>b\<close>.

  \<^item> \<open>Idle\<close>: no call of \<^verbatim>\<open>addResult\<close> is under way;
  \<^item> \<open>Sending rs\<close>: \<^verbatim>\<open>addResult\<close> holds \<^verbatim>\<open>channelMux\<close> and is blocked on a send to the
    full channel; \<open>rs\<close> are the results it has still to send;
  \<^item> \<open>AtSendSignal\<close>: \<^verbatim>\<open>addResult\<close> has made its sends and unlocked \<^verbatim>\<open>channelMux\<close>;
    the call of \<^verbatim>\<open>sendSignal\<close> comes next;
  \<^item> \<open>Panicked\<close>: \<^verbatim>\<open>addResult\<close> has panicked; \<^verbatim>\<open>channelMux\<close>, which is not unlocked by
    a \<^verbatim>\<open>defer\<close>, stays locked.

  A step is what a goroutine does without blocking and without the state it reads being
  changed by another goroutine: \<^verbatim>\<open>closed\<close> is written under \<^verbatim>\<open>channelMux\<close> only, the
  channel is sent to under \<^verbatim>\<open>channelMux\<close> and received from without a lock, and the wait
  channel is read and written under \<^verbatim>\<open>waitSignalMux\<close>, a mutex that is never held across
  a blocking operation other than the send of the signal, for which the receiver is ready
  (see \<open>sendSignal\<close>). A step that cannot be taken, because the goroutine is blocked, leaves
  the state as it is. One goroutine calls \<^verbatim>\<open>IsEmpty\<close>, one calls \<^verbatim>\<open>addResult\<close> and
  one calls \<^verbatim>\<open>Close\<close>, each one call after the other, so that \<^verbatim>\<open>closed\<close> does not
  change between the test of \<^verbatim>\<open>Close\<close> and its \<^verbatim>\<open>Lock\<close>; the consumers may be many,
  and a receive is a single step.
\<close>

datatype IsEmpty_call = AtLock | AtSecondTest | AtWaitForSignal | Waiting | Returned bool

datatype addResult_call = Idle | Sending "Result list" | AtSendSignal | Panicked

record goroutines =
  resultSet :: channelResultSet
  inIsEmpty :: IsEmpty_call
  inAddResult :: addResult_call

text \<open>
  \<^verbatim>\<open>waitForSignal\<close>: the wait channel is made and registered, then the goroutine blocks
  on the receive.
\<close>

definition waitForSignal :: "goroutines \<Rightarrow> goroutines" where
  "waitForSignal g = g\<lparr>resultSet := (resultSet g)\<lparr>waitSignal := True\<rparr>, inIsEmpty := Waiting\<rparr>"

text \<open>
  \<^verbatim>\<open>sendSignal\<close> sends only if a wait channel is registered. A channel is registered only
  by \<^verbatim>\<open>waitForSignal\<close>, whose goroutine then receives from it (lemma
  \<open>waitSignal_registered\<close> below), so the send goes through: the waiting goroutine is woken
  and calls \<^verbatim>\<open>IsEmpty\<close> again. With no channel registered nothing is sent.
\<close>

definition sendSignal :: "goroutines \<Rightarrow> goroutines" where
  "sendSignal g =
    (if waitSignal (resultSet g)
     then g\<lparr>resultSet := (resultSet g)\<lparr>waitSignal := False\<rparr>, inIsEmpty := AtLock\<rparr>
     else g)"

text \<open>
  One step of a call of \<^verbatim>\<open>IsEmpty\<close>. At \<open>AtLock\<close> it needs \<^verbatim>\<open>channelMux\<close>; the
  first condition is tested in the same step, and so is the \<^verbatim>\<open>Unlock\<close> when that
  condition holds. The second condition reads the length of the channel again, from which
  a consumer may have received in between; the \<^verbatim>\<open>Unlock\<close> and the return follow in the
  same step.
\<close>

definition IsEmpty :: "goroutines \<Rightarrow> goroutines" where
  "IsEmpty g =
    (case inIsEmpty g of
       AtLock \<Rightarrow>
         if channelMux (resultSet g) then g
         else if length (channel (resultSet g)) = 0 \<and> \<not> closed (resultSet g)
         then g\<lparr>inIsEmpty := AtWaitForSignal\<rparr>
         else g\<lparr>resultSet := (resultSet g)\<lparr>channelMux := True\<rparr>, inIsEmpty := AtSecondTest\<rparr>
     | AtSecondTest \<Rightarrow>
         if length (channel (resultSet g)) \<noteq> 0
         then g\<lparr>resultSet := (resultSet g)\<lparr>channelMux := False\<rparr>, inIsEmpty := Returned False\<rparr>
         else g\<lparr>resultSet := (resultSet g)\<lparr>channelMux := False\<rparr>, inIsEmpty := Returned True\<rparr>
     | AtWaitForSignal \<Rightarrow> waitForSignal g
     | Waiting \<Rightarrow> g
     | Returned b \<Rightarrow> g)"

text \<open>
  \<^verbatim>\<open>Close\<close>. The field \<^verbatim>\<open>closed\<close> is read before the lock is taken; the signal is sent
  with the lock held.
\<close>

definition Close :: "goroutines \<Rightarrow> goroutines" where
  "Close g =
    (if \<not> closed (resultSet g) then
       (if channelMux (resultSet g) then g
        else sendSignal (g\<lparr>resultSet := (resultSet g)\<lparr>closed := True\<rparr>\<rparr>))
     else g)"

text \<open>The body of the loop of \<^verbatim>\<open>addResult\<close>: a \<^verbatim>\<open>*Traverser\<close> is replaced by its value.\<close>

fun unwrap :: "gvalue \<Rightarrow> Result" where
  "unwrap (GoTraverserPtr bulk val) = Result val"
| "unwrap v = Result v"

text \<open>
  The sends of \<^verbatim>\<open>addResult\<close>, made with \<^verbatim>\<open>channelMux\<close> held. A send on the closed channel
  panics; a send on a full channel blocks until a receiver has taken a result. After the
  last send \<^verbatim>\<open>channelMux\<close> is unlocked.
\<close>

fun sends :: "Result list \<Rightarrow> goroutines \<Rightarrow> goroutines" where
  "sends [] g = g\<lparr>resultSet := (resultSet g)\<lparr>channelMux := False\<rparr>, inAddResult := AtSendSignal\<rparr>"
| "sends (r # rs) g =
    (if closed (resultSet g) then g\<lparr>inAddResult := Panicked\<rparr>
     else if length (channel (resultSet g)) < capacity (resultSet g)
     then sends rs (g\<lparr>resultSet := (resultSet g)\<lparr>channel := channel (resultSet g) @ [r]\<rparr>\<rparr>)
     else g\<lparr>inAddResult := Sending (r # rs)\<rparr>)"

text \<open>
  \<^verbatim>\<open>addResult\<close>, from the call to the \<^verbatim>\<open>Unlock\<close> or to the first send that blocks. It
  panics in \<^verbatim>\<open>Kind\<close> on a nil type, in the type assertion
  \<^verbatim>\<open>r.result.([]interface{})\<close> on an array or on a slice of another type, and in a send on
  the closed channel. Its last step, \<open>addResult_sendSignal\<close>, sends the signal and returns.
\<close>

definition addResult :: "goroutines \<Rightarrow> Result \<Rightarrow> goroutines" where
  "addResult g r =
    (if inAddResult g = Idle \<and> \<not> channelMux (resultSet g) then
       (let g' = g\<lparr>resultSet := (resultSet g)\<lparr>channelMux := True\<rparr>\<rparr> in
        case GetType_Kind r of
          None \<Rightarrow> g'\<lparr>inAddResult := Panicked\<rparr>
        | Some k \<Rightarrow>
           if k = Array \<or> k = Slice then
             (case result r of
                GoSlice vs \<Rightarrow> sends (map unwrap vs) g'
              | _ \<Rightarrow> g'\<lparr>inAddResult := Panicked\<rparr>)
           else sends [Result (result r)] g')
     else g)"

definition addResult_sendSignal :: "goroutines \<Rightarrow> goroutines" where
  "addResult_sendSignal g =
    (if inAddResult g = AtSendSignal then sendSignal (g\<lparr>inAddResult := Idle\<rparr>) else g)"

text \<open>
  A consumer takes one result from the channel (\<^verbatim>\<open>one\<close>, \<^verbatim>\<open>All\<close>, or a receive on
  \<^verbatim>\<open>Channel()\<close>). That makes room for a blocked \<^verbatim>\<open>addResult\<close>, which goes on sending;
  on a channel of capacity 0 the receiver takes the result from the blocked sender itself.
  On an empty channel with no sender the consumer blocks, or receives nil from the closed
  channel: the ResultSet stays as it is.
\<close>

definition receive :: "goroutines \<Rightarrow> goroutines" where
  "receive g =
    (case channel (resultSet g) of
       x # xs \<Rightarrow>
         (let g' = g\<lparr>resultSet := (resultSet g)\<lparr>channel := xs\<rparr>\<rparr> in
          case inAddResult g of Sending pending \<Rightarrow> sends pending g' | _ \<Rightarrow> g')
     | [] \<Rightarrow>
         (case inAddResult g of
            Sending (r # pending) \<Rightarrow> sends pending g
          | _ \<Rightarrow> g))"

text \<open>
  The goroutines at the start: \<^verbatim>\<open>IsEmpty\<close> has just been called on the ResultSet, no call
  of \<^verbatim>\<open>addResult\<close> is under way.
\<close>

definition at_start :: "channelResultSet \<Rightarrow> goroutines" where
  "at_start rs = \<lparr>resultSet = rs, inIsEmpty = AtLock, inAddResult = Idle\<rparr>"

text \<open>
  A wait channel is registered only while the goroutine of \<^verbatim>\<open>IsEmpty\<close> waits on it, and
  \<^verbatim>\<open>channelMux\<close> is held between two steps only by \<^verbatim>\<open>IsEmpty\<close> between its two
  tests and by an \<^verbatim>\<open>addResult\<close> that is blocked or has panicked, never by both: every
  step keeps this.
\<close>

fun holding :: "addResult_call \<Rightarrow> bool" where
  "holding (Sending rs) = True"
| "holding Panicked = True"
| "holding Idle = False"
| "holding AtSendSignal = False"

definition consistent :: "goroutines \<Rightarrow> bool" where
  "consistent g \<longleftrightarrow>
     (waitSignal (resultSet g) \<longrightarrow> inIsEmpty g = Waiting)
     \<and> (channelMux (resultSet g) \<longleftrightarrow> holding (inAddResult g) \<or> inIsEmpty g = AtSecondTest)
     \<and> \<not> (holding (inAddResult g) \<and> inIsEmpty g = AtSecondTest)"

section \<open>The driver's connection settings\<close>

text \<open>
  \<^verbatim>\<open>NewDriverRemoteConnection\<close> (driverRemoteConnection.go). The settings keep the
  fields that are numbers, booleans and strings; the logger, the language tag, the
  credentials, the TLS configuration and the transporter type are handed on unchanged and
  are left out. The default values are constants declared outside the sources at hand
  (and \<^verbatim>\<open>runtime.NumCPU()\<close>), so the settings literal the function starts from is a
  parameter, as is \<^verbatim>\<open>newLoadBalancingPool\<close>. A configuration is a function that updates
  the settings.

  The file comes in two copies. The later one has \<^verbatim>\<open>InitialConcurrentConnections\<close>;
  the earlier one, \<open>NewDriverRemoteConnection_v1\<close> here, is the same function without it.
\<close>

record DriverRemoteConnectionSettings =
  TraversalSource :: string
  KeepAliveInterval :: int
  WriteDeadline :: int
  ConnectionTimeout :: int
  EnableCompression :: bool
  ReadBufferSize :: int
  WriteBufferSize :: int
  NewConnectionThreshold :: int
  MaximumConcurrentConnections :: int
  InitialConcurrentConnections :: int
  Session :: string

record connectionSettings =
  keepAliveInterval :: int
  writeDeadline :: int
  connectionTimeout :: int
  enableCompression :: bool
  readBufferSize :: int
  writeBufferSize :: int

record 'pool Client =
  url :: string
  traversalSource :: string
  connections :: 'pool
  session :: string

record 'pool DriverRemoteConnection =
  client :: "'pool Client"
  isClosed :: bool

definition apply_configurations ::
  "('s \<Rightarrow> 's) list \<Rightarrow> 's \<Rightarrow> 's" where
  "apply_configurations configurations settings =
     fold (\<lambda>configuration s. configuration s) configurations settings"

definition NewDriverRemoteConnection ::
  "(string \<Rightarrow> connectionSettings \<Rightarrow> int \<Rightarrow> int \<Rightarrow> int \<Rightarrow> error + 'pool)
   \<Rightarrow> DriverRemoteConnectionSettings \<Rightarrow> string
   \<Rightarrow> (DriverRemoteConnectionSettings \<Rightarrow> DriverRemoteConnectionSettings) list
   \<Rightarrow> error + 'pool DriverRemoteConnection" where
  "NewDriverRemoteConnection newLoadBalancingPool defaults url' configurations =
    (let settings = apply_configurations configurations defaults;
         connSettings = \<lparr>keepAliveInterval = KeepAliveInterval settings,
                         writeDeadline = WriteDeadline settings,
                         connectionTimeout = ConnectionTimeout settings,
                         enableCompression = EnableCompression settings,
                         readBufferSize = ReadBufferSize settings,
                         writeBufferSize = WriteBufferSize settings\<rparr>;
         settings = (if Session settings \<noteq> '''' then settings\<lparr>MaximumConcurrentConnections := 1\<rparr>
                     else settings);
         settings = (if InitialConcurrentConnections settings > MaximumConcurrentConnections settings
                     then settings\<lparr>InitialConcurrentConnections :=
                                      MaximumConcurrentConnections settings\<rparr>
                     else settings)
     in case newLoadBalancingPool url' connSettings (NewConnectionThreshold settings)
               (MaximumConcurrentConnections settings) (InitialConcurrentConnections settings) of
          Inl err \<Rightarrow> Inl err
        | Inr pool \<Rightarrow>
            Inr \<lparr>client = \<lparr>url = url', traversalSource = TraversalSource settings,
                             connections = pool, session = Session settings\<rparr>,
                 isClosed = False\<rparr>)"

definition NewDriverRemoteConnection_v1 ::
  "(string \<Rightarrow> connectionSettings \<Rightarrow> int \<Rightarrow> int \<Rightarrow> error + 'pool)
   \<Rightarrow> DriverRemoteConnectionSettings \<Rightarrow> string
   \<Rightarrow> (DriverRemoteConnectionSettings \<Rightarrow> DriverRemoteConnectionSettings) list
   \<Rightarrow> error + 'pool DriverRemoteConnection" where
  "NewDriverRemoteConnection_v1 newLoadBalancingPool defaults url' configurations =
    (let settings = apply_configurations configurations defaults;
         connSettings = \<lparr>keepAliveInterval = KeepAliveInterval settings,
                         writeDeadline = WriteDeadline settings,
                         connectionTimeout = ConnectionTimeout settings,
                         enableCompression = EnableCompression settings,
                         readBufferSize = ReadBufferSize settings,
                         writeBufferSize = WriteBufferSize settings\<rparr>;
         settings = (if Session settings \<noteq> '''' then settings\<lparr>MaximumConcurrentConnections := 1\<rparr>
                     else settings)
     in case newLoadBalancingPool url' connSettings (NewConnectionThreshold settings)
               (MaximumConcurrentConnections settings) of
          Inl err \<Rightarrow> Inl err
        | Inr pool \<Rightarrow>
            Inr \<lparr>client = \<lparr>url = url', traversalSource = TraversalSource settings,
                             connections = pool, session = Session settings\<rparr>,
                 isClosed = False\<rparr>)"

section \<open>Notions of the specification\<close>

text \<open>The wire type the encoder selects for a value, if it selects one.\<close>

definition selectedDataType :: "gvalue \<Rightarrow> DataType option" where
  "selectedDataType v =
    (case getSerializerToWrite v of
       Return (Some typeSerializer) None \<Rightarrow> Some (dataType typeSerializer)
     | _ \<Rightarrow> None)"

text \<open>
  The value a round trip through the codec is expected to give back: the integer types are
  widened as the writers widen them (\<^verbatim>\<open>int\<close> and \<^verbatim>\<open>uint32\<close> to \<^verbatim>\<open>int64\<close>,
  \<^verbatim>\<open>uint16\<close> to \<^verbatim>\<open>int32\<close>), and every slice or array comes back as a
  \<^verbatim>\<open>[]interface{}\<close>.
\<close>

primrec widen :: "gvalue \<Rightarrow> gvalue" where
  "widen GoNil = GoNil"
| "widen (GoBool a) = GoBool a"
| "widen (GoUint8 a) = GoUint8 a"
| "widen (GoInt16 a) = GoInt16 a"
| "widen (GoInt32 a) = GoInt32 a"
| "widen (GoInt64 a) = GoInt64 a"
| "widen (GoInt a) = GoInt64 a"
| "widen (GoUint16 a) = GoInt32 (ucast a)"
| "widen (GoUint32 a) = GoInt64 (ucast a)"
| "widen (GoBigInt a) = GoBigInt a"
| "widen (GoFloat32 a) = GoFloat32 a"
| "widen (GoFloat64 a) = GoFloat64 a"
| "widen (GoString a) = GoString a"
| "widen (GoUUID a) = GoUUID a"
| "widen (GoSlice xs) = GoSlice (map widen xs)"
| "widen (GoTypedSlice xs) = GoSlice (map widen xs)"
| "widen (GoArray xs) = GoSlice (map widen xs)"
| "widen (GoMap kvs) = GoMap (map (map_prod widen widen) kvs)"
| "widen (GoBytecode steps sources) = GoBytecode steps sources"
| "widen (GoTraverser bulk v) = GoTraverser bulk v"
| "widen (GoTraverserPtr bulk v) = GoTraverserPtr bulk v"
| "widen GoOther = GoOther"

text \<open>No key of the list is, for Go, equal to a later one.\<close>

fun keys_distinct :: "gvalue list \<Rightarrow> bool" where
  "keys_distinct [] = True"
| "keys_distinct (k # ks) = ((\<forall>k' \<in> set ks. \<not> go_eq k k') \<and> keys_distinct ks)"

text \<open>
  The values for which the round trip is claimed: null, \<^verbatim>\<open>uint8\<close>, the signed and
  unsigned integers the writer knows, big integers, floats, strings, UUIDs, and lists and
  maps of such values. Every length that is written as an Int32 (of a string, of the bytes
  of a big integer, of a list or a map) is below \<open>2 ^ 31\<close>. The keys of a map are
  hashable as they are read back, which leaves out every slice, array and map as a key (an
  array is read back as a \<^verbatim>\<open>[]interface{}\<close>); they are not NaN, and they stay different
  keys once widened. Bools, bytecode, traversers and values of other types are left out.
\<close>

fun round_trippable :: "gvalue \<Rightarrow> bool" where
  "round_trippable GoNil = True"
| "round_trippable (GoBool a) = False"
| "round_trippable (GoBigInt n) =
    (case getSignedBytesFromBigInt n of None \<Rightarrow> False | Some bs \<Rightarrow> length bs < 2 ^ 31)"
| "round_trippable (GoString s) = (length s < 2 ^ 31)"
| "round_trippable (GoSlice xs) = (length xs < 2 ^ 31 \<and> (\<forall>x \<in> set xs. round_trippable x))"
| "round_trippable (GoTypedSlice xs) = (length xs < 2 ^ 31 \<and> (\<forall>x \<in> set xs. round_trippable x))"
| "round_trippable (GoArray xs) = (length xs < 2 ^ 31 \<and> (\<forall>x \<in> set xs. round_trippable x))"
| "round_trippable (GoMap kvs) =
    (length kvs < 2 ^ 31
     \<and> (\<forall>kv \<in> set kvs. round_trippable (fst kv) \<and> round_trippable (snd kv)
            \<and> hashable (widen (fst kv)) \<and> \<not> has_NaN (fst kv))
     \<and> keys_distinct (map (widen \<circ> fst) kvs))"
| "round_trippable (GoBytecode steps sources) = False"
| "round_trippable (GoTraverser bulk v) = False"
| "round_trippable (GoTraverserPtr bulk v) = False"
| "round_trippable GoOther = False"
| "round_trippable v = True"

text \<open>The big-endian digits of a number in a fixed number of bytes, leading zeros kept.\<close>

primrec fixed_bytes :: "nat \<Rightarrow> nat \<Rightarrow> byte list" where
  "fixed_bytes 0 r = []"
| "fixed_bytes (Suc k) r = fixed_bytes k (r div 256) @ [of_nat (r mod 256)]"

text \<open>
  \<open>round_trips v bytes\<close>: writing \<open>v\<close> appends \<open>bytes\<close> to any buffer, and reading a
  buffer that starts with \<open>bytes\<close> gives the widened \<open>v\<close> back and consumes exactly
  \<open>bytes\<close>.
\<close>

definition round_trips :: "gvalue \<Rightarrow> byte list \<Rightarrow> bool" where
  "round_trips v bytes \<longleftrightarrow>
     (\<forall>buffer. serializer_write v buffer = Return (buffer @ bytes) None)
     \<and> (\<forall>rest. serializer_read (bytes @ rest) = Return (widen v, length bytes) None)"

section \<open>Evaluation of the codec\<close>

lemmas DataType_defs =
  NullType_def IntType_def LongType_def StringType_def DoubleType_def FloatType_def
  ListType_def MapType_def UUIDType_def BytecodeType_def TraverserType_def ByteType_def
  ShortType_def BooleanType_def BigIntegerType_def

lemma be_bytes_1: "be_bytes 1 w = [ucast w]"
  by (simp add: numeral_eq_Suc)

lemma be_bytes_2: "be_bytes 2 w = [ucast (drop_bit 8 w), ucast w]"
  by (simp add: numeral_eq_Suc)

lemma be_bytes_4:
  "be_bytes 4 w = [ucast (drop_bit 24 w), ucast (drop_bit 16 w), ucast (drop_bit 8 w), ucast w]"
  by (simp add: numeral_eq_Suc)

lemma be_bytes_8:
  "be_bytes 8 w = [ucast (drop_bit 56 w), ucast (drop_bit 48 w), ucast (drop_bit 40 w),
     ucast (drop_bit 32 w), ucast (drop_bit 24 w), ucast (drop_bit 16 w), ucast (drop_bit 8 w),
     ucast w]"
  by (simp add: numeral_eq_Suc)

lemma length_be_bytes [simp]: "length (be_bytes n w) = n"
  by (induction n) auto

text \<open>The method \<^verbatim>\<open>write\<close> in the shape of the source, through \<^verbatim>\<open>writeType\<close>.\<close>

lemma serializer_write_unfold:
  "serializer_write valueObject buffer =
    (if valueObject = GoNil then Return (buffer @ nullBytes) None
     else case getSerializerToWrite valueObject of
       Panic \<Rightarrow> Panic
     | Return _ (Some err) \<Rightarrow> Return buffer (Some err)
     | Return None None \<Rightarrow> Panic
     | Return (Some typeSerializer) None \<Rightarrow>
         writeType valueObject (buffer @ getCodeBytes (dataType typeSerializer)) typeSerializer)"
  unfolding writeType_def by (rule serializer_write.simps)

text \<open>
  \<^verbatim>\<open>instructionSetWriter\<close> writes the operator with \<^verbatim>\<open>writeValue(operator, buffer, false)\<close>:
  the length of the string and its bytes, as in \<open>instructionSetWriter_loop\<close>.
\<close>

lemma writeValue_operator:
  "writeValue (GoString operator) buffer False =
     Return (buffer @ be_bytes 4 (of_nat (length operator) :: 32 word) @ operator) None"
  by (simp add: writeValue_def writeTypeValue.simps call_writer.simps)

text \<open>The method \<^verbatim>\<open>read\<close> in the shape of the source, through \<^verbatim>\<open>readType\<close>.\<close>

lemma serializer_read_unfold:
  "serializer_read buffer =
    (case buffer of
       [] \<Rightarrow> Return (GoNil, 0) (Some EOF)
     | typeCode # rest \<Rightarrow>
        if typeCode = NullType then
          (case rest of
             [] \<Rightarrow> Return (GoNil, 1) (Some isNullError)
           | isNull # _ \<Rightarrow>
               if isNull \<noteq> 1 then Return (GoNil, 2) (Some isNullError)
               else Return (GoNil, 2) None)
        else
          (case getSerializerToRead typeCode of
             Panic \<Rightarrow> Panic
           | Return _ (Some err) \<Rightarrow> Return (GoNil, 1) (Some err)
           | Return None None \<Rightarrow> Panic
           | Return (Some typeSerializer) None \<Rightarrow>
               (case readType rest typeSerializer of
                  Panic \<Rightarrow> Panic
                | Return (v, c) err \<Rightarrow> Return (v, 1 + c) err)))"
  unfolding readType_def by (rule serializer_read.simps)

lemmas write_defs = serializer_write.simps writeTypeValue.simps call_writer.simps
  binary_Write_def getCodeBytes_def getCodeByte_def writeValueFlagNone_def writeValueFlagNull_def
  valueFlagNone_def valueFlagNull_def nullBytes_def

lemmas read_defs = serializer_read.simps readTypeValue.simps call_reader.simps
  listReader_loop.simps mapReader_loop.simps getSerializerToRead_def
  binary_Read_def buffer_Read_def be_word_def
  stringReader_def bigIntReader_def longReader_def intReader_def shortReader_def
  byteReader_def booleanReader_def uuidReader_def floatReader_def doubleReader_def

section \<open>The claims\<close>

text \<open>
  C5. A nil value written at the outer, fully-qualified level appends exactly the two
  bytes 0xFE 0x01 to the buffer, and nothing else.
\<close>

theorem null_is_two_bytes: "serializer_write GoNil buffer = Return (buffer @ [0xFE, 0x01]) None"
  by (simp add: serializer_write.simps nullBytes_def getCodeByte_def NullType_def)

text \<open>
  C7. A nil value for a slot that is not nullable: \<^verbatim>\<open>writeValue\<close> and
  \<^verbatim>\<open>writeTypeValue\<close> return the unexpected-null error and leave the buffer as it was.
\<close>

theorem nil_in_non_nullable_slot:
  "writeValue GoNil buffer False = Return buffer (Some unexpectedNull)
   \<and> writeTypeValue GoNil buffer typeSerializer False = Return buffer (Some unexpectedNull)"
  by (simp add: writeValue_def writeTypeValue.simps)

text \<open>
  C9. A bool is written fully qualified with the type code of Byte, 0x24, not with the one
  of Boolean, 0x27, followed by the flag 0x00 and the byte 0x01 for true, 0x00 for false.
  Read back fully qualified, these bytes give a \<^verbatim>\<open>uint8\<close>, not a bool.
\<close>

theorem bool_written_as_byte:
  "serializer_write (GoBool b) buffer = Return (buffer @ [0x24, 0x00, of_bool b]) None
   \<and> ByteType = 0x24 \<and> BooleanType = 0x27
   \<and> serializer_read ([0x24, 0x00, of_bool b] @ rest) = Return (GoUint8 (of_bool b), 3) None"
  by (simp add: write_defs read_defs DataType_defs)

text \<open>
  C2, as stated, fails: the Go \<^verbatim>\<open>int\<close> 5 fits Int32 and is written as Int64, with
  type code 0x02 and eight value bytes.
\<close>

theorem int_selection_counterexample:
  "- (2 ^ 31) \<le> sint (5 :: 64 word) \<and> sint (5 :: 64 word) \<le> 2 ^ 31 - 1
   \<and> selectedDataType (GoInt 5) = Some LongType \<and> LongType \<noteq> IntType
   \<and> serializer_write (GoInt 5) [] = Return [0x02, 0, 0, 0, 0, 0, 0, 0, 0, 5] None"
  by (simp add: selectedDataType_def write_defs DataType_defs be_bytes_8)

text \<open>
  C2, amended. The wire type follows the Go type of the value, whatever its magnitude:
  \<^verbatim>\<open>int32\<close> and \<^verbatim>\<open>uint16\<close> are written as Int32, \<^verbatim>\<open>int64\<close>, \<^verbatim>\<open>int\<close> and
  \<^verbatim>\<open>uint32\<close> as Int64, a \<^verbatim>\<open>*big.Int\<close> as BigInt, \<^verbatim>\<open>int16\<close> as Short and \<^verbatim>\<open>uint8\<close>
  as Byte.
\<close>

theorem wire_type_by_go_type:
  "selectedDataType (GoInt32 a) = Some IntType
   \<and> selectedDataType (GoUint16 b) = Some IntType
   \<and> selectedDataType (GoInt64 c) = Some LongType
   \<and> selectedDataType (GoInt d) = Some LongType
   \<and> selectedDataType (GoUint32 e) = Some LongType
   \<and> selectedDataType (GoBigInt n) = Some BigIntegerType
   \<and> selectedDataType (GoInt16 f) = Some ShortType
   \<and> selectedDataType (GoUint8 g) = Some ByteType"
  by (simp add: selectedDataType_def)

text \<open>
  C10, as stated, fails: with the first byte equal to the requested type code,
  \<^verbatim>\<open>readValue\<close> does not return where the reader panics: on a String of negative
  length, and on a well-formed Map whose key is a list.
\<close>

theorem readValue_counterexample:
  "readValue (Some [StringType, 0x00, 0xFF, 0xFF, 0xFF, 0xFF]) StringType True = Panic
   \<and> readValue (Some [MapType, 0x00, 0, 0, 0, 1, 0x09, 0x00, 0, 0, 0, 0, 0xFE, 0x01])
        MapType True = Panic"
  by (simp add: readValue_def ReadByte_def read_defs getCodeByte_def valueFlagNull_def
      DataType_defs)

text \<open>
  C10, amended. When \<^verbatim>\<open>getSerializerToRead\<close> has a serializer for the requested type
  code and the first byte of the buffer is that code, \<^verbatim>\<open>readValue\<close> returns the value
  that \<^verbatim>\<open>readTypeValue\<close> returned, with a nil error, whatever error \<^verbatim>\<open>readTypeValue\<close>
  returned; where \<^verbatim>\<open>readTypeValue\<close> panics, \<^verbatim>\<open>readValue\<close> panics.
\<close>

theorem readValue_drops_error:
  assumes "getSerializerToRead typ = Return (Some typeSerializer) e"
  shows "readValue (Some (typ # body)) typ nullable =
           (case readTypeValue body typeSerializer nullable of
              Panic \<Rightarrow> Panic
            | Return (val, c) err \<Rightarrow> Return (val, 1 + c) None)"
  using assms by (simp add: readValue_def ReadByte_def split: outcome.splits prod.splits)

theorem readValue_drops_error_witness:
  "getSerializerToRead IntType =
     Return (Some \<lparr>dataType = IntType, writer = None, reader = Some R_int,
                    nullFlagReturn = GoInt 0\<rparr>) None
   \<and> readTypeValue [0x00] \<lparr>dataType = IntType, writer = None, reader = Some R_int,
                    nullFlagReturn = GoInt 0\<rparr> True = Return (GoInt32 0, 1) (Some EOF)
   \<and> readValue (Some [IntType, 0x00]) IntType True = Return (GoInt32 0, 2) None"
proof -
  have h: "getSerializerToRead IntType =
     Return (Some \<lparr>dataType = IntType, writer = None, reader = Some R_int,
                    nullFlagReturn = GoInt 0\<rparr>) None"
    by (simp add: getSerializerToRead_def getCodeByte_def DataType_defs)
  have r: "readTypeValue [0x00] \<lparr>dataType = IntType, writer = None, reader = Some R_int,
                    nullFlagReturn = GoInt 0\<rparr> True = Return (GoInt32 0, 1) (Some EOF)"
    by (simp add: read_defs valueFlagNull_def)
  from readValue_drops_error [OF h, of "[0x00]" True] h r show ?thesis by simp
qed

text \<open>
  A type code for which \<^verbatim>\<open>getSerializerToRead\<close> returns its error and a nil serializer:
  \<^verbatim>\<open>read\<close> returns that error, \<^verbatim>\<open>readValue\<close> drops it and panics on the nil
  serializer.
\<close>

lemma read_without_serializer:
  assumes "getSerializerToRead typ = Return None (Some err)" and "typ \<noteq> NullType"
  shows "serializer_read (typ # body) = Return (GoNil, 1) (Some err)"
    and "readValue (Some (typ # body)) typ nullable = Panic"
  using assms by (simp_all add: serializer_read.simps readValue_def ReadByte_def)

section \<open>The ResultSet\<close>

lemma sends_consistent:
  "(waitSignal (resultSet g) \<longrightarrow> inIsEmpty g = Waiting) \<Longrightarrow> inIsEmpty g \<noteq> AtSecondTest \<Longrightarrow>
   channelMux (resultSet g) \<Longrightarrow> consistent (sends rs g)"
  by (induction rs g rule: sends.induct) (auto simp add: consistent_def)

lemma waitSignal_registered:
  assumes "consistent g"
  shows "consistent (IsEmpty g)" and "consistent (Close g)" and "consistent (addResult g r)"
    and "consistent (addResult_sendSignal g)" and "consistent (receive g)"
proof -
  show "consistent (IsEmpty g)"
    using assms
    by (auto simp add: consistent_def IsEmpty_def waitForSignal_def split: IsEmpty_call.splits)
  show "consistent (Close g)"
    using assms by (auto simp add: consistent_def Close_def sendSignal_def)
  show "consistent (addResult_sendSignal g)"
    using assms by (auto simp add: consistent_def addResult_sendSignal_def sendSignal_def)
  show "consistent (addResult g r)"
  proof (cases "inAddResult g = Idle \<and> \<not> channelMux (resultSet g)")
    case False
    then have "addResult g r = g" by (auto simp add: addResult_def)
    then show ?thesis using assms by simp
  next
    case True
    let ?g = "g\<lparr>resultSet := (resultSet g)\<lparr>channelMux := True\<rparr>\<rparr>"
    have n: "inIsEmpty g \<noteq> AtSecondTest" using assms True by (auto simp add: consistent_def)
    have s: "consistent (sends rs ?g)" for rs
      using assms n by (intro sends_consistent) (simp_all add: consistent_def)
    have p: "consistent (?g\<lparr>inAddResult := Panicked\<rparr>)"
      using assms n by (simp add: consistent_def)
    show ?thesis
      using True s p
      by (simp add: addResult_def Let_def del: sends.simps split: option.splits gvalue.splits)
  qed
  show "consistent (receive g)"
  proof (cases "inAddResult g")
    case Idle
    then show ?thesis
      using assms by (auto simp add: consistent_def receive_def split: list.splits)
  next
    case AtSendSignal
    then show ?thesis
      using assms by (auto simp add: consistent_def receive_def split: list.splits)
  next
    case Panicked
    then show ?thesis
      using assms by (auto simp add: consistent_def receive_def split: list.splits)
  next
    case (Sending pending)
    have m: "channelMux (resultSet g)" "inIsEmpty g \<noteq> AtSecondTest"
      using assms Sending by (auto simp add: consistent_def)
    have w: "waitSignal (resultSet g) \<longrightarrow> inIsEmpty g = Waiting"
      using assms by (simp add: consistent_def)
    have s: "consistent (sends rs (g\<lparr>resultSet := (resultSet g)\<lparr>channel := xs\<rparr>\<rparr>))" for rs xs
      using m w by (intro sends_consistent) simp_all
    have s': "consistent (sends rs g)" for rs
      using m w by (intro sends_consistent) simp_all
    show ?thesis
      using Sending s s' assms
      by (simp add: receive_def Let_def del: sends.simps split: list.splits)
  qed
qed

text \<open>
  With room in the open channel for all of them, the sends go through, and
  \<^verbatim>\<open>addResult\<close> returns with one Result enqueued for each element of the list, in
  order; a \<^verbatim>\<open>*Traverser\<close> is replaced by its value, whatever its bulk.
\<close>

lemma sends_with_room:
  "\<not> closed (resultSet g) \<Longrightarrow> length (channel (resultSet g)) + length rs \<le> capacity (resultSet g) \<Longrightarrow>
   sends rs g =
     g\<lparr>resultSet := (resultSet g)\<lparr>channel := channel (resultSet g) @ rs, channelMux := False\<rparr>,
       inAddResult := AtSendSignal\<rparr>"
proof (induction rs arbitrary: g)
  case Nil
  then show ?case by simp
next
  case (Cons r rs)
  let ?g = "g\<lparr>resultSet := (resultSet g)\<lparr>channel := channel (resultSet g) @ [r]\<rparr>\<rparr>"
  have "sends (r # rs) g = sends rs ?g" using Cons.prems by simp
  also have "\<dots> = ?g\<lparr>resultSet := (resultSet ?g)\<lparr>channel := channel (resultSet ?g) @ rs,
                                              channelMux := False\<rparr>,
                   inAddResult := AtSendSignal\<rparr>"
    using Cons.prems by (intro Cons.IH) simp_all
  finally show ?case by simp
qed

lemma pointer_traversers_unwrapped:
  assumes "inAddResult g = Idle" and "\<not> channelMux (resultSet g)" and "\<not> closed (resultSet g)"
    and "length (channel (resultSet g)) + length ts \<le> capacity (resultSet g)"
  shows "addResult_sendSignal
           (addResult g (Result (GoSlice (map (\<lambda>(bulk, val). GoTraverserPtr bulk val) ts)))) =
         sendSignal (g\<lparr>resultSet := (resultSet g)\<lparr>channel := channel (resultSet g)
                                                        @ map (\<lambda>(bulk, val). Result val) ts\<rparr>\<rparr>)"
proof -
  have u: "map (unwrap \<circ> (\<lambda>(bulk, val). GoTraverserPtr bulk val)) ts =
           map (\<lambda>(bulk, val). Result val) ts"
    by (induction ts) auto
  let ?g = "g\<lparr>resultSet := (resultSet g)\<lparr>channelMux := True\<rparr>\<rparr>"
  let ?rs = "map (\<lambda>(bulk, val). Result val) ts"
  have "addResult g (Result (GoSlice (map (\<lambda>(bulk, val). GoTraverserPtr bulk val) ts))) =
        sends ?rs ?g"
    using assms by (simp add: addResult_def u)
  also have "\<dots> = ?g\<lparr>resultSet := (resultSet ?g)\<lparr>channel := channel (resultSet ?g) @ ?rs,
                                              channelMux := False\<rparr>,
                   inAddResult := AtSendSignal\<rparr>"
    using assms by (intro sends_with_room) simp_all
  finally have a: "addResult g (Result (GoSlice (map (\<lambda>(bulk, val). GoTraverserPtr bulk val) ts))) =
      ?g\<lparr>resultSet := (resultSet ?g)\<lparr>channel := channel (resultSet ?g) @ ?rs,
                                              channelMux := False\<rparr>,
                   inAddResult := AtSendSignal\<rparr>" .
  have "?g\<lparr>resultSet := (resultSet ?g)\<lparr>channel := channel (resultSet ?g) @ ?rs,
                                              channelMux := False\<rparr>,
                   inAddResult := Idle\<rparr> =
      g\<lparr>resultSet := (resultSet g)\<lparr>channel := channel (resultSet g) @ ?rs\<rparr>\<rparr>"
    using assms by (cases g; cases "resultSet g") simp
  then show ?thesis unfolding a by (simp add: addResult_sendSignal_def)
qed

text \<open>
  C4. The claim fails on what the wire delivers. The frame bytes
  \<^verbatim>\<open>09 00 00 00 00 01 21 00 00 00 00 00 00 00 00 02 03 00 00 00 00 01 61\<close> are a list of
  one traverser of bulk 2 with the value \<^verbatim>\<open>"a"\<close>. The reader of the Traverser type returns
  a \<^verbatim>\<open>Traverser\<close> struct value, \<^verbatim>\<open>addResult\<close> unwraps a \<^verbatim>\<open>*Traverser\<close> only: added
  to a new ResultSet, the traverser is enqueued as it is, once, and not its value. The same
  list with a \<^verbatim>\<open>*Traverser\<close> in it has the value enqueued.
\<close>

theorem wire_traverser_stays_wrapped:
  "serializer_read [0x09, 0x00, 0, 0, 0, 1, 0x21, 0x00, 0, 0, 0, 0, 0, 0, 0, 2,
                    0x03, 0x00, 0, 0, 0, 1, 0x61] =
     Return (GoSlice [GoTraverser 2 (GoString [0x61])], 23) None
   \<and> addResult_sendSignal
       (addResult (at_start (newChannelResultSet requestID'))
          (Result (GoSlice [GoTraverser 2 (GoString [0x61])]))) =
     at_start ((newChannelResultSet requestID')
        \<lparr>channel := [Result (GoTraverser 2 (GoString [0x61]))]\<rparr>)
   \<and> addResult_sendSignal
       (addResult (at_start (newChannelResultSet requestID'))
          (Result (GoSlice [GoTraverserPtr 2 (GoString [0x61])]))) =
     at_start ((newChannelResultSet requestID') \<lparr>channel := [Result (GoString [0x61])]\<rparr>)"
proof -
  have "serializer_read [0x09, 0x00, 0, 0, 0, 1, 0x21, 0x00, 0, 0, 0, 0, 0, 0, 0, 2,
                    0x03, 0x00, 0, 0, 0, 1, 0x61] =
     Return (GoSlice [GoTraverser 2 (GoString [0x61])], 23) None"
    by (simp add: read_defs getCodeByte_def valueFlagNull_def DataType_defs)
  moreover have "addResult_sendSignal
       (addResult (at_start (newChannelResultSet requestID'))
          (Result (GoSlice [GoTraverser 2 (GoString [0x61])]))) =
     at_start ((newChannelResultSet requestID')
        \<lparr>channel := [Result (GoTraverser 2 (GoString [0x61]))]\<rparr>)"
    by (simp add: addResult_def addResult_sendSignal_def at_start_def
        newChannelResultSet_def newChannelResultSetCapacity_def defaultCapacity_def
        sendSignal_def)
  moreover have "addResult_sendSignal
       (addResult (at_start (newChannelResultSet requestID'))
          (Result (GoSlice [GoTraverserPtr 2 (GoString [0x61])]))) =
     at_start ((newChannelResultSet requestID') \<lparr>channel := [Result (GoString [0x61])]\<rparr>)"
    by (simp add: addResult_def addResult_sendSignal_def at_start_def
        newChannelResultSet_def newChannelResultSetCapacity_def defaultCapacity_def
        sendSignal_def)
  ultimately show ?thesis by simp
qed

text \<open>
  \<^verbatim>\<open>IsEmpty\<close> called with nothing else running: on a closed ResultSet with an empty queue
  it returns true after its two tests, with a result in the queue it returns false, and on
  an open ResultSet with an empty queue it registers a wait channel and blocks until a
  signal.
\<close>

lemma IsEmpty_alone:
  assumes "inIsEmpty g = AtLock" and "\<not> channelMux (resultSet g)"
  shows "channel (resultSet g) = [] \<Longrightarrow> closed (resultSet g) \<Longrightarrow>
           IsEmpty (IsEmpty g) = g\<lparr>inIsEmpty := Returned True\<rparr>"
    and "channel (resultSet g) \<noteq> [] \<Longrightarrow> IsEmpty (IsEmpty g) = g\<lparr>inIsEmpty := Returned False\<rparr>"
    and "channel (resultSet g) = [] \<Longrightarrow> \<not> closed (resultSet g) \<Longrightarrow>
           IsEmpty (IsEmpty g) =
             g\<lparr>resultSet := (resultSet g)\<lparr>waitSignal := True\<rparr>, inIsEmpty := Waiting\<rparr>"
proof -
  have e: "g\<lparr>resultSet := (resultSet g)\<lparr>channelMux := False\<rparr>, inIsEmpty := b\<rparr> =
           g\<lparr>inIsEmpty := b\<rparr>" for b
    using assms(2) by (cases g; cases "resultSet g") simp
  show "channel (resultSet g) = [] \<Longrightarrow> closed (resultSet g) \<Longrightarrow>
           IsEmpty (IsEmpty g) = g\<lparr>inIsEmpty := Returned True\<rparr>"
    using assms e by (simp add: IsEmpty_def)
  show "channel (resultSet g) \<noteq> [] \<Longrightarrow> IsEmpty (IsEmpty g) = g\<lparr>inIsEmpty := Returned False\<rparr>"
    using assms e by (simp add: IsEmpty_def)
  show "channel (resultSet g) = [] \<Longrightarrow> \<not> closed (resultSet g) \<Longrightarrow>
           IsEmpty (IsEmpty g) =
             g\<lparr>resultSet := (resultSet g)\<lparr>waitSignal := True\<rparr>, inIsEmpty := Waiting\<rparr>"
    using assms by (simp add: IsEmpty_def waitForSignal_def)
qed

text \<open>
  A signal sent while \<^verbatim>\<open>IsEmpty\<close> waits wakes it, and it looks at the queue again: after
  \<^verbatim>\<open>Close\<close> it returns true.
\<close>

lemma IsEmpty_woken_by_Close:
  assumes "inIsEmpty g = Waiting" and "waitSignal (resultSet g)" and "\<not> channelMux (resultSet g)"
    and "\<not> closed (resultSet g)" and "channel (resultSet g) = []"
  shows "IsEmpty (IsEmpty (Close g)) =
           g\<lparr>resultSet := (resultSet g)\<lparr>closed := True, waitSignal := False\<rparr>,
              inIsEmpty := Returned True\<rparr>"
proof -
  have "g\<lparr>resultSet := (resultSet g)\<lparr>closed := True, waitSignal := False, channelMux := False\<rparr>,
           inIsEmpty := Returned True\<rparr> =
        g\<lparr>resultSet := (resultSet g)\<lparr>closed := True, waitSignal := False\<rparr>,
           inIsEmpty := Returned True\<rparr>"
    using assms(3) by (cases g; cases "resultSet g") simp
  then show ?thesis
    using assms by (simp add: IsEmpty_def Close_def sendSignal_def)
qed

text \<open>
  A state change between the \<^verbatim>\<open>Unlock\<close> of \<^verbatim>\<open>IsEmpty\<close> and the registration of the wait
  channel sends no signal, as no channel is registered yet, and \<^verbatim>\<open>IsEmpty\<close> goes on to
  wait for the next one. After \<^verbatim>\<open>Close\<close> none comes: no step of \<^verbatim>\<open>IsEmpty\<close>, of
  \<^verbatim>\<open>Close\<close> or of a consumer changes the state any more.
\<close>

lemma lost_wakeup:
  assumes "inIsEmpty g = AtLock" and "inAddResult g = Idle" and "\<not> channelMux (resultSet g)"
    and "\<not> waitSignal (resultSet g)" and "\<not> closed (resultSet g)" and "channel (resultSet g) = []"
  defines "blocked \<equiv> g\<lparr>resultSet := (resultSet g)\<lparr>closed := True, waitSignal := True\<rparr>,
                         inIsEmpty := Waiting\<rparr>"
  shows "IsEmpty (Close (IsEmpty g)) = blocked"
    and "IsEmpty blocked = blocked" and "Close blocked = blocked" and "receive blocked = blocked"
    and "addResult_sendSignal blocked = blocked"
  using assms
  by (simp_all add: IsEmpty_def Close_def sendSignal_def waitForSignal_def receive_def
      addResult_sendSignal_def)

text \<open>
  The second test of \<^verbatim>\<open>IsEmpty\<close> reads the length of the channel again. When a consumer
  has taken the last result of an open ResultSet between the two tests, \<^verbatim>\<open>IsEmpty\<close>
  returns true on a ResultSet that is not closed.
\<close>

lemma IsEmpty_true_on_open:
  assumes "inIsEmpty g = AtLock" and "inAddResult g = Idle" and "\<not> channelMux (resultSet g)"
    and "\<not> closed (resultSet g)" and "channel (resultSet g) = [r]"
  shows "inIsEmpty (IsEmpty (receive (IsEmpty g))) = Returned True"
    and "\<not> closed (resultSet (IsEmpty (receive (IsEmpty g))))"
  using assms by (simp_all add: IsEmpty_def receive_def)

text \<open>
  C3. The claim fails on the code when \<^verbatim>\<open>Close\<close> runs between the two steps of
  \<^verbatim>\<open>IsEmpty\<close> on a new ResultSet. \<^verbatim>\<open>IsEmpty\<close> finds the queue empty and open and
  unlocks; \<^verbatim>\<open>Close\<close> closes the ResultSet and finds no wait channel to signal;
  \<^verbatim>\<open>IsEmpty\<close> registers its wait channel and blocks. The ResultSet is now closed and
  empty, and the call of \<^verbatim>\<open>IsEmpty\<close> stays blocked whatever \<^verbatim>\<open>IsEmpty\<close>, \<^verbatim>\<open>Close\<close>
  and the consumers do next, where a call made after \<^verbatim>\<open>Close\<close> returns true.
\<close>

theorem IsEmpty_misses_Close:
  "IsEmpty (at_start (newChannelResultSet requestID')) =
     (at_start (newChannelResultSet requestID'))\<lparr>inIsEmpty := AtWaitForSignal\<rparr>
   \<and> IsEmpty (Close (IsEmpty (at_start (newChannelResultSet requestID')))) =
     \<lparr>resultSet = (newChannelResultSet requestID')\<lparr>closed := True, waitSignal := True\<rparr>,
      inIsEmpty = Waiting, inAddResult = Idle\<rparr>
   \<and> IsEmpty \<lparr>resultSet = (newChannelResultSet requestID')\<lparr>closed := True, waitSignal := True\<rparr>,
              inIsEmpty = Waiting, inAddResult = Idle\<rparr> =
     \<lparr>resultSet = (newChannelResultSet requestID')\<lparr>closed := True, waitSignal := True\<rparr>,
      inIsEmpty = Waiting, inAddResult = Idle\<rparr>
   \<and> Close \<lparr>resultSet = (newChannelResultSet requestID')\<lparr>closed := True, waitSignal := True\<rparr>,
            inIsEmpty = Waiting, inAddResult = Idle\<rparr> =
     \<lparr>resultSet = (newChannelResultSet requestID')\<lparr>closed := True, waitSignal := True\<rparr>,
      inIsEmpty = Waiting, inAddResult = Idle\<rparr>
   \<and> receive \<lparr>resultSet = (newChannelResultSet requestID')\<lparr>closed := True, waitSignal := True\<rparr>,
              inIsEmpty = Waiting, inAddResult = Idle\<rparr> =
     \<lparr>resultSet = (newChannelResultSet requestID')\<lparr>closed := True, waitSignal := True\<rparr>,
      inIsEmpty = Waiting, inAddResult = Idle\<rparr>
   \<and> IsEmpty (IsEmpty (at_start
        (resultSet (Close (at_start (newChannelResultSet requestID')))))) =
     \<lparr>resultSet = (newChannelResultSet requestID')\<lparr>closed := True\<rparr>,
      inIsEmpty = Returned True, inAddResult = Idle\<rparr>"
  by (simp add: IsEmpty_def Close_def sendSignal_def waitForSignal_def receive_def
      at_start_def newChannelResultSet_def newChannelResultSetCapacity_def)

section \<open>The driver\<close>

text \<open>
  C8. When the settings, after the caller's configurations, carry a non-empty session id,
  \<^verbatim>\<open>NewDriverRemoteConnection\<close> calls \<^verbatim>\<open>newLoadBalancingPool\<close> with 1 as the maximum of
  concurrent connections, whatever maximum the caller configured (and, in the later copy,
  with at most 1 initial connection), and the driver it returns holds the pool made by that
  call; it fails only with the error of that call. This holds for both copies of the
  function.
\<close>

theorem session_caps_pool:
  assumes "Session (apply_configurations configurations defaults) \<noteq> ''''"
  shows "NewDriverRemoteConnection newLoadBalancingPool defaults u configurations =
           (let settings = apply_configurations configurations defaults in
            case newLoadBalancingPool u
                   \<lparr>keepAliveInterval = KeepAliveInterval settings,
                    writeDeadline = WriteDeadline settings,
                    connectionTimeout = ConnectionTimeout settings,
                    enableCompression = EnableCompression settings,
                    readBufferSize = ReadBufferSize settings,
                    writeBufferSize = WriteBufferSize settings\<rparr>
                   (NewConnectionThreshold settings) 1
                   (min (InitialConcurrentConnections settings) 1) of
              Inl err \<Rightarrow> Inl err
            | Inr pool \<Rightarrow>
                Inr \<lparr>client = \<lparr>url = u, traversalSource = TraversalSource settings,
                                 connections = pool, session = Session settings\<rparr>,
                     isClosed = False\<rparr>)
         \<and> NewDriverRemoteConnection_v1 newLoadBalancingPool_v1 defaults u configurations =
           (let settings = apply_configurations configurations defaults in
            case newLoadBalancingPool_v1 u
                   \<lparr>keepAliveInterval = KeepAliveInterval settings,
                    writeDeadline = WriteDeadline settings,
                    connectionTimeout = ConnectionTimeout settings,
                    enableCompression = EnableCompression settings,
                    readBufferSize = ReadBufferSize settings,
                    writeBufferSize = WriteBufferSize settings\<rparr>
                   (NewConnectionThreshold settings) 1 of
              Inl err \<Rightarrow> Inl err
            | Inr pool \<Rightarrow>
                Inr \<lparr>client = \<lparr>url = u, traversalSource = TraversalSource settings,
                                 connections = pool, session = Session settings\<rparr>,
                     isClosed = False\<rparr>)"
proof -
  have m: "(if (1::int) < x then 1 else x) = min x 1" for x by simp
  show ?thesis
    using assms
    by (simp add: NewDriverRemoteConnection_def NewDriverRemoteConnection_v1_def Let_def m
        split: sum.splits)
qed

theorem session_caps_pool_witness:
  "Session (apply_configurations
       [\<lambda>s. s\<lparr>Session := ''abc'', MaximumConcurrentConnections := 16,
               InitialConcurrentConnections := 4\<rparr>]
       \<lparr>TraversalSource = ''g'', KeepAliveInterval = 5, WriteDeadline = 3,
        ConnectionTimeout = 5, EnableCompression = False, ReadBufferSize = 1048576,
        WriteBufferSize = 1048576, NewConnectionThreshold = 4,
        MaximumConcurrentConnections = 8, InitialConcurrentConnections = 1,
        Session = ''''\<rparr>) \<noteq> ''''
   \<and> NewDriverRemoteConnection (\<lambda>u' c t m i. Inr (m, i))
       \<lparr>TraversalSource = ''g'', KeepAliveInterval = 5, WriteDeadline = 3,
        ConnectionTimeout = 5, EnableCompression = False, ReadBufferSize = 1048576,
        WriteBufferSize = 1048576, NewConnectionThreshold = 4,
        MaximumConcurrentConnections = 8, InitialConcurrentConnections = 1,
        Session = ''''\<rparr>
       ''ws://localhost:8182/gremlin''
       [\<lambda>s. s\<lparr>Session := ''abc'', MaximumConcurrentConnections := 16,
               InitialConcurrentConnections := 4\<rparr>] =
     Inr \<lparr>client = \<lparr>url = ''ws://localhost:8182/gremlin'', traversalSource = ''g'',
                     connections = (1, 1), session = ''abc''\<rparr>, isClosed = False\<rparr>
   \<and> NewDriverRemoteConnection_v1 (\<lambda>u' c t m. Inr m)
       \<lparr>TraversalSource = ''g'', KeepAliveInterval = 5, WriteDeadline = 3,
        ConnectionTimeout = 5, EnableCompression = False, ReadBufferSize = 1048576,
        WriteBufferSize = 1048576, NewConnectionThreshold = 4,
        MaximumConcurrentConnections = 8, InitialConcurrentConnections = 1,
        Session = ''''\<rparr>
       ''ws://localhost:8182/gremlin''
       [\<lambda>s. s\<lparr>Session := ''abc'', MaximumConcurrentConnections := 16,
               InitialConcurrentConnections := 4\<rparr>] =
     Inr \<lparr>client = \<lparr>url = ''ws://localhost:8182/gremlin'', traversalSource = ''g'',
                     connections = 1, session = ''abc''\<rparr>, isClosed = False\<rparr>"
proof -
  let ?d = "\<lparr>TraversalSource = ''g'', KeepAliveInterval = 5, WriteDeadline = 3,
        ConnectionTimeout = 5, EnableCompression = False, ReadBufferSize = 1048576,
        WriteBufferSize = 1048576, NewConnectionThreshold = 4,
        MaximumConcurrentConnections = 8, InitialConcurrentConnections = 1,
        Session = ''''\<rparr>"
  let ?c = "[\<lambda>s. s\<lparr>Session := ''abc'', MaximumConcurrentConnections := (16::int),
               InitialConcurrentConnections := (4::int)\<rparr>]"
  have h: "Session (apply_configurations ?c ?d) \<noteq> []"
    by (simp add: apply_configurations_def)
  from session_caps_pool [OF h, of "\<lambda>u' c t m i. Inr (m, i)" "''ws://localhost:8182/gremlin''"
      "\<lambda>u' c t m. Inr m"]
  show ?thesis by (simp add: apply_configurations_def)
qed

section \<open>Lengths on the wire\<close>

text \<open>
  What a successful read consumes: never more than the buffer holds, and at least two
  bytes (type code and flag) for each fully-qualified value.
\<close>

lemma plain_readers_consumed:
  "stringReader buffer = Return (v, c) None \<Longrightarrow> c \<le> length buffer"
  "bigIntReader buffer = Return (v, c) None \<Longrightarrow> c \<le> length buffer"
  "longReader buffer = Return (v, c) None \<Longrightarrow> c \<le> length buffer"
  "intReader buffer = Return (v, c) None \<Longrightarrow> c \<le> length buffer"
  "shortReader buffer = Return (v, c) None \<Longrightarrow> c \<le> length buffer"
  "byteReader buffer = Return (v, c) None \<Longrightarrow> c \<le> length buffer"
  "booleanReader buffer = Return (v, c) None \<Longrightarrow> c \<le> length buffer"
  "uuidReader buffer = Return (v, c) None \<Longrightarrow> c \<le> length buffer"
  "floatReader buffer = Return (v, c) None \<Longrightarrow> c \<le> length buffer"
  "doubleReader buffer = Return (v, c) None \<Longrightarrow> c \<le> length buffer"
  by (auto simp add: stringReader_def bigIntReader_def longReader_def intReader_def
      shortReader_def byteReader_def booleanReader_def uuidReader_def floatReader_def
      doubleReader_def binary_Read_def buffer_Read_def Let_def
      split: sum.splits if_splits option.splits prod.splits)

lemma read_consumed:
  "\<forall>v c. serializer_read buffer = Return (v, c) None \<longrightarrow> 2 \<le> c \<and> c \<le> length buffer"
  "\<forall>v c. readTypeValue buffer' ts nullable = Return (v, c) None \<longrightarrow>
     c \<le> length buffer' \<and> (nullable \<longrightarrow> 1 \<le> c)"
  "\<forall>v c. call_reader r buffer'' = Return (v, c) None \<longrightarrow> c \<le> length buffer''"
  "\<forall>v c. listReader_loop n b4 acc = Return (v, c) None \<longrightarrow> 2 * n \<le> c \<and> c \<le> length b4"
  "\<forall>v c. mapReader_loop m b5 macc = Return (v, c) None \<longrightarrow> 4 * m \<le> c \<and> c \<le> length b5"
proof (induction buffer and buffer' ts nullable and r buffer'' and n b4 acc and m b5 macc
    rule: serializer_read_readTypeValue_call_reader_listReader_loop_mapReader_loop.induct)
  case (1 buffer)
  show ?case
    apply (subst serializer_read.simps)
    using 1
    apply (auto split: list.splits if_splits outcome.splits option.splits prod.splits)
    done
next
  case (2 buffer typeSerializer nullable)
  show ?case
    apply (subst readTypeValue.simps)
    using 2
    apply (auto split: list.splits if_splits outcome.splits option.splits prod.splits)
    done
next
  case (3 r buffer)
  show ?case
  proof (cases r)
    case None
    then show ?thesis by (simp add: call_reader.simps)
  next
    case (Some rid)
    show ?thesis
    proof (cases rid)
      case R_traverser
      show ?thesis
      proof (cases "binary_Read 8 buffer")
        case (Inl e)
        with Some R_traverser show ?thesis by (simp add: call_reader.simps)
      next
        case (Inr b)
        from Inr have len: "8 \<le> length buffer"
          by (auto simp add: binary_Read_def split: if_splits)
        from 3(1) [OF Some R_traverser Inr] len Some R_traverser Inr show ?thesis
          by (auto simp add: call_reader.simps split: outcome.splits option.splits prod.splits)
      qed
    next
      case R_map
      show ?thesis
      proof (cases "binary_Read 4 buffer")
        case (Inl e)
        with Some R_map show ?thesis by (simp add: call_reader.simps)
      next
        case (Inr b)
        from Inr have len: "4 \<le> length buffer"
          by (auto simp add: binary_Read_def split: if_splits)
        from 3(2) [OF Some R_map Inr] len Some R_map Inr show ?thesis
          by (auto simp add: call_reader.simps split: outcome.splits option.splits prod.splits)
      qed
    next
      case R_list
      show ?thesis
      proof (cases "binary_Read 4 buffer")
        case (Inl e)
        with Some R_list show ?thesis by (simp add: call_reader.simps)
      next
        case (Inr b)
        from Inr have len: "4 \<le> length buffer"
          by (auto simp add: binary_Read_def split: if_splits)
        from 3(3) [OF Some R_list Inr] len Some R_list Inr show ?thesis
          by (auto simp add: call_reader.simps split: outcome.splits option.splits prod.splits)
      qed
    qed (use Some in \<open>auto simp add: call_reader.simps dest: plain_readers_consumed\<close>)
  qed
next
  case (4 n buffer valList)
  show ?case
  proof (cases "n = 0")
    case True
    then show ?thesis by (simp add: listReader_loop.simps)
  next
    case False
    show ?thesis
    proof (intro allI impI)
      fix v c
      assume A: "listReader_loop n buffer valList = Return (v, c) None"
      from A False obtain val c1 c2 where
        r1: "serializer_read buffer = Return (val, c1) None" and
        r2: "listReader_loop (n - 1) (drop c1 buffer) (valList @ [val]) = Return (v, c2) None" and
        c: "c = c1 + c2"
        by (subst (asm) listReader_loop.simps)
          (auto split: outcome.splits option.splits prod.splits)
      from 4(1) [OF False] r1 have b1: "2 \<le> c1" "c1 \<le> length buffer" by auto
      from 4(2) [OF False r1 refl refl] r2 have b2: "2 * (n - 1) \<le> c2" "c2 \<le> length buffer - c1"
        by auto
      from b1 b2 c False show "2 * n \<le> c \<and> c \<le> length buffer" by auto
    qed
  qed
next
  case (5 n buffer valMap)
  show ?case
  proof (cases "n = 0")
    case True
    then show ?thesis by (simp add: mapReader_loop.simps)
  next
    case False
    show ?thesis
    proof (intro allI impI)
      fix v c
      assume A: "mapReader_loop n buffer valMap = Return (v, c) None"
      from A False obtain key c1 val c2 c3 where
        r1: "serializer_read buffer = Return (key, c1) None" and
        r2: "serializer_read (drop c1 buffer) = Return (val, c2) None" and
        h: "hashable key" and
        r3: "mapReader_loop (n - 1) (drop (c1 + c2) buffer) (map_assign valMap key val) =
               Return (v, c3) None" and
        c: "c = c1 + c2 + c3"
        by (subst (asm) mapReader_loop.simps)
          (auto split: outcome.splits option.splits prod.splits if_splits)
      from 5(1) [OF False] r1 have b1: "2 \<le> c1" "c1 \<le> length buffer" by auto
      from 5(2) [OF False r1 refl refl] r2 have b2: "2 \<le> c2" "c2 \<le> length buffer - c1"
        by auto
      from h have h': "\<not> \<not> hashable key" by simp
      from 5(3) [OF False r1 refl refl r2 refl refl h'] r3
      have b3: "4 * (n - 1) \<le> c3" "c3 \<le> length buffer - (c1 + c2)"
        by auto
      from b1 b2 b3 c False show "4 * n \<le> c \<and> c \<le> length buffer" by auto
    qed
  qed
qed


lemma foldl_be_bytes:
  "foldl (\<lambda>acc b. push_bit 8 acc OR ucast b) (acc :: 'a::len word) (be_bytes n (w :: 'a word))
     = push_bit (8 * n) acc OR take_bit (8 * n) w"
proof (induction n arbitrary: acc)
  case 0
  show ?case by simp
next
  case (Suc n)
  show ?case
    apply (simp only: be_bytes.simps foldl_Cons Suc.IH)
    apply (rule bit_word_eqI)
    subgoal for k
      apply (cases "8 * n + 8 \<le> k")
       apply (auto simp add: bit_simps ac_simps)
      done
    done
qed

lemma be_word_be_bytes:
  "8 * n = LENGTH('a) \<Longrightarrow> be_word (be_bytes n (w :: 'a::len word)) = w"
  unfolding be_word_def foldl_be_bytes
  by (rule bit_word_eqI) (auto simp add: bit_simps)

lemma binary_Read_be_bytes:
  "0 < n \<Longrightarrow> binary_Read n (be_bytes n w @ rest) = Inr (be_bytes n w)"
  by (cases n) (auto simp add: binary_Read_def)

lemma read_list_header:
  "serializer_read (ListType # valueFlagNone # be_bytes 4 (sz :: 32 word) @ rest) =
    (case listReader_loop (nat (sint sz)) rest [] of
       Panic \<Rightarrow> Panic
     | Return (v, c) e \<Rightarrow> Return (v, 6 + c) e)"
  by (simp add: serializer_read.simps readTypeValue.simps call_reader.simps
      getSerializerToRead_def getCodeByte_def DataType_defs valueFlagNone_def valueFlagNull_def
      binary_Read_be_bytes be_word_be_bytes split: outcome.splits prod.splits)

lemma read_map_header:
  "serializer_read (MapType # valueFlagNone # be_bytes 4 (sz :: 32 word) @ rest) =
    (case mapReader_loop (nat (sint sz)) rest [] of
       Panic \<Rightarrow> Panic
     | Return (v, c) e \<Rightarrow> Return (v, 6 + c) e)"
  by (simp add: serializer_read.simps readTypeValue.simps call_reader.simps
      getSerializerToRead_def getCodeByte_def DataType_defs valueFlagNone_def valueFlagNull_def
      binary_Read_be_bytes be_word_be_bytes split: outcome.splits prod.splits)

lemma read_string_header:
  "serializer_read (StringType # valueFlagNone # be_bytes 4 (sz :: 32 word) @ rest) =
    (if sint sz < 0 then Panic
     else case buffer_Read (nat (sint sz)) rest of
            (valBytes, e) \<Rightarrow>
              Return (GoString valBytes, 6 + min (nat (sint sz)) (length rest)) e)"
  by (simp add: serializer_read.simps readTypeValue.simps call_reader.simps stringReader_def
      getSerializerToRead_def getCodeByte_def DataType_defs valueFlagNone_def valueFlagNull_def
      binary_Read_be_bytes be_word_be_bytes Let_def split: outcome.splits prod.splits)

text \<open>
  C6, as stated, fails: a List or a Map with a negative length is read as the empty
  collection, with no error; a String whose length exceeds the bytes that remain is read
  as those bytes followed by zero bytes, with no error; a String with a negative length
  makes the reader panic.
\<close>

theorem length_counterexample:
  "serializer_read [ListType, 0x00, 0xFF, 0xFF, 0xFF, 0xFF] = Return (GoSlice [], 6) None
   \<and> serializer_read [MapType, 0x00, 0xFF, 0xFF, 0xFF, 0xFF] = Return (GoMap [], 6) None
   \<and> serializer_read [StringType, 0x00, 0, 0, 0, 5, 65, 66] =
        Return (GoString [65, 66, 0, 0, 0], 8) None
   \<and> serializer_read [StringType, 0x00, 0xFF, 0xFF, 0xFF, 0xFF] = Panic"
  by (simp add: read_defs getCodeByte_def valueFlagNull_def DataType_defs numeral_3_eq_3)

text \<open>
  C6, amended. When the length read for a fully-qualified List or Map (type code, value
  flag 0x00, length) is larger than the number of bytes that remain, the method
  \<^verbatim>\<open>read\<close> does not return with a nil error: it returns an error, or it panics. When
  the length read for a fully-qualified String is positive and no byte remains,
  \<^verbatim>\<open>read\<close> returns a string of zero bytes together with \<^verbatim>\<open>io.EOF\<close>. (This is about \<^verbatim>\<open>read\<close>; \<^verbatim>\<open>readValue\<close> returns no error of the
  reader.)
\<close>

theorem oversized_collection_fails:
  assumes "length rest < nat (sint (sz :: 32 word))"
  shows "serializer_read ([ListType, valueFlagNone] @ be_bytes 4 sz @ rest) \<noteq> Return (v, c) None
       \<and> serializer_read ([MapType, valueFlagNone] @ be_bytes 4 sz @ rest) \<noteq> Return (v', c') None
       \<and> (rest = [] \<longrightarrow>
            serializer_read ([StringType, valueFlagNone] @ be_bytes 4 sz) =
              Return (GoString (replicate (nat (sint sz)) 0), 6) (Some EOF))"
proof (intro conjI impI)
  show "serializer_read ([ListType, valueFlagNone] @ be_bytes 4 sz @ rest) \<noteq> Return (v, c) None"
  proof
    assume "serializer_read ([ListType, valueFlagNone] @ be_bytes 4 sz @ rest) = Return (v, c) None"
    then obtain c0 where "listReader_loop (nat (sint sz)) rest [] = Return (v, c0) None"
      by (auto simp add: read_list_header split: outcome.splits prod.splits)
    with read_consumed(4) [of "nat (sint sz)" rest "[]"]
    have "2 * nat (sint sz) \<le> c0" "c0 \<le> length rest" by auto
    with assms show False by simp
  qed
  show "serializer_read ([MapType, valueFlagNone] @ be_bytes 4 sz @ rest) \<noteq> Return (v', c') None"
  proof
    assume "serializer_read ([MapType, valueFlagNone] @ be_bytes 4 sz @ rest) = Return (v', c') None"
    then obtain c0 where "mapReader_loop (nat (sint sz)) rest [] = Return (v', c0) None"
      by (auto simp add: read_map_header split: outcome.splits prod.splits)
    with read_consumed(5) [of "nat (sint sz)" rest "[]"]
    have "4 * nat (sint sz) \<le> c0" "c0 \<le> length rest" by auto
    with assms show False by simp
  qed
  assume "rest = []"
  with assms have pos: "0 < sint sz" by simp
  from read_string_header [of sz "[]"] pos
  show "serializer_read ([StringType, valueFlagNone] @ be_bytes 4 sz) =
          Return (GoString (replicate (nat (sint sz)) 0), 6) (Some EOF)"
    by (simp add: buffer_Read_def)
qed

theorem oversized_collection_fails_witness:
  "length [NullType, 0x01] < nat (sint (3 :: 32 word))
   \<and> serializer_read [ListType, 0x00, 0, 0, 0, 3, NullType, 0x01] = Return (GoNil, 8) (Some EOF)
   \<and> serializer_read [MapType, 0x00, 0, 0, 0, 3, NullType, 0x01] = Return (GoNil, 8) (Some EOF)
   \<and> serializer_read [StringType, 0x00, 0, 0, 0, 3] = Return (GoString [0, 0, 0], 6) (Some EOF)"
proof -
  have l: "length [NullType, 0x01] < nat (sint (3 :: 32 word))" by simp
  have e: "length ([] :: byte list) < nat (sint (3 :: 32 word))" by simp
  have a: "serializer_read [ListType, 0x00, 0, 0, 0, 3, NullType, 0x01] = Return (GoNil, 8) (Some EOF)"
    "serializer_read [MapType, 0x00, 0, 0, 0, 3, NullType, 0x01] = Return (GoNil, 8) (Some EOF)"
    by (simp_all add: read_defs getCodeByte_def valueFlagNull_def DataType_defs)
  have s: "serializer_read [StringType, 0x00, 0, 0, 0, 3] =
      Return (GoString (replicate (nat (sint (3 :: 32 word))) 0), 6) (Some EOF)"
    using oversized_collection_fails [OF e] by (simp add: be_bytes_4 valueFlagNone_def)
  have r: "replicate (nat (sint (3 :: 32 word))) (0 :: byte) = [0, 0, 0]"
    by (simp add: numeral_3_eq_3)
  from oversized_collection_fails [OF l, of GoNil 8 GoNil 8] l a s r show ?thesis
    by simp
qed

section \<open>Big integers on the wire\<close>

lemma length_fixed_bytes [simp]: "length (fixed_bytes k r) = k"
  by (induction k arbitrary: r) auto

lemma bytes_nat_Nil [simp]: "bytes_nat [] = 0"
  by (simp add: bytes_nat_def)

lemma bytes_nat_snoc [simp]: "bytes_nat (bs @ [b]) = bytes_nat bs * 256 + unat b"
  by (simp add: bytes_nat_def)

lemma unat_of_nat_byte: "n < 256 \<Longrightarrow> unat (of_nat n :: byte) = n"
  by (simp add: unat_of_nat)

lemma bytes_nat_fixed_bytes: "r < 256 ^ k \<Longrightarrow> bytes_nat (fixed_bytes k r) = r"
proof (induction k arbitrary: r)
  case 0
  then show ?case by simp
next
  case (Suc k)
  from Suc.prems have "r div 256 < 256 ^ k"
    by (simp add: less_mult_imp_div_less mult.commute)
  with Suc.IH have "bytes_nat (fixed_bytes k (r div 256)) = r div 256" by simp
  then show ?case by (simp add: unat_of_nat_byte)
qed

lemma bytes_nat_append:
  "bytes_nat (xs @ ys) = bytes_nat xs * 256 ^ length ys + bytes_nat ys"
proof (induction ys rule: rev_induct)
  case Nil
  show ?case by simp
next
  case (snoc y ys)
  have "bytes_nat (xs @ ys @ [y]) = bytes_nat ((xs @ ys) @ [y])" by simp
  also have "\<dots> = bytes_nat (xs @ ys) * 256 + unat y" by (rule bytes_nat_snoc)
  finally show ?case using snoc.IH by (simp add: algebra_simps)
qed

lemma bytes_nat_single [simp]: "bytes_nat [x] = unat x"
  using bytes_nat_snoc [of "[]" x] by simp

lemma bytes_nat_Cons: "bytes_nat (x # xs) = unat x * 256 ^ length xs + bytes_nat xs"
  using bytes_nat_append [of "[x]" xs] by simp

lemma bytes_nat_less: "bytes_nat xs < 256 ^ length xs"
proof (induction xs rule: rev_induct)
  case Nil
  show ?case by simp
next
  case (snoc x xs)
  have "unat x < 256" using unsigned_less [of x, where ?'a = nat] by simp
  with snoc.IH show ?case by simp
qed

lemma nat_bytes_small: "0 < q \<Longrightarrow> q < 256 \<Longrightarrow> nat_bytes q = [of_nat q]"
  by (subst nat_bytes.simps, subst nat_bytes.simps) simp

lemma nat_bytes_split:
  "0 < q \<Longrightarrow> r < 256 ^ k \<Longrightarrow> nat_bytes (q * 256 ^ k + r) = nat_bytes q @ fixed_bytes k r"
proof (induction k arbitrary: r)
  case 0
  then show ?case by simp
next
  case (Suc k)
  let ?n = "q * 256 ^ Suc k + r"
  from Suc.prems have pos: "?n \<noteq> 0" by simp
  have d: "?n div 256 = q * 256 ^ k + r div 256" by simp
  have "(256 * (q * 256 ^ k) + r) mod 256 = r mod 256" by (rule mod_mult_self4)
  then have m: "?n mod 256 = r mod 256" by (simp add: mult.assoc mult.left_commute)
  from Suc.prems have "r div 256 < 256 ^ k"
    by (simp add: less_mult_imp_div_less mult.commute)
  from Suc.IH [OF Suc.prems(1) this] pos d m show ?case
    by (subst nat_bytes.simps) (simp del: power_Suc)
qed

lemma bytes_nat_nat_bytes: "bytes_nat (nat_bytes n) = n"
proof (induction n rule: nat_bytes.induct)
  case (1 n)
  show ?case
  proof (cases "n = 0")
    case True
    then show ?thesis by (simp add: nat_bytes.simps)
  next
    case False
    with 1 have "bytes_nat (nat_bytes (n div 256)) = n div 256" by simp
    with False show ?thesis
      by (subst nat_bytes.simps) (simp add: unat_of_nat_byte)
  qed
qed

lemma top_bit_byte: "(x :: byte) AND 0x80 \<noteq> 0 \<longleftrightarrow> 128 \<le> unat x"
proof -
  have "(0x80 :: byte) = 2 ^ 7" by simp
  then have "x AND 0x80 \<noteq> 0 \<longleftrightarrow> bit x 7"
    by (simp only: and_exp_eq_0_iff_not_bit) simp
  also have "\<dots> \<longleftrightarrow> bit (unat x) 7" by (simp add: bit_unsigned_iff)
  also have "\<dots> \<longleftrightarrow> odd (unat x div 2 ^ 7)" by (simp only: bit_iff_odd)
  also have "\<dots> \<longleftrightarrow> 128 \<le> unat x"
  proof -
    have "unat x < 256" using unsigned_less [of x, where ?'a = nat] by simp
    moreover have "odd (n div 128) \<longleftrightarrow> 128 \<le> n" if "n < 256" for n :: nat
    proof (cases "128 \<le> n")
      case True
      with that have "n div 128 = 1" by (intro div_nat_eqI) simp_all
      with True show ?thesis by simp
    next
      case False
      then show ?thesis by simp
    qed
    ultimately show ?thesis by simp
  qed
  finally show ?thesis .
qed

lemma pow2_bytes: "(2 :: int) ^ (8 * k) = 256 ^ k"
  by (simp add: power_mult)

lemma BitLen_bound: "n < 2 ^ BitLen n"
proof (induction n rule: BitLen.induct)
  case (1 n)
  show ?case
  proof (cases "n = 0")
    case True
    then show ?thesis by (simp add: BitLen.simps)
  next
    case False
    with 1 have "n div 2 < 2 ^ BitLen (n div 2)" by simp
    then have "n < 2 * 2 ^ BitLen (n div 2)" by linarith
    with False show ?thesis by (subst BitLen.simps) simp
  qed
qed

text \<open>A byte sequence whose first bit is set is read as the number minus \<open>256 ^ length\<close>.\<close>

lemma decode_negative:
  assumes "x AND 0x80 \<noteq> 0"
  shows "getBigIntFromSignedBytes (x # xs) =
           Some (int (bytes_nat (x # xs)) - 256 ^ Suc (length xs))"
proof -
  let ?k = "Suc (length xs)"
  let ?U = "bytes_nat (x # xs)"
  define r where "r = 256 ^ ?k - ?U"
  have U_less: "?U < 256 ^ ?k" using bytes_nat_less [of "x # xs"] by simp
  from assms have "128 \<le> unat x" by (simp add: top_bit_byte)
  then have "128 * 256 ^ length xs \<le> unat x * 256 ^ length xs" by simp
  then have U_pos: "0 < ?U" by (simp add: bytes_nat_Cons)
  from U_less U_pos have r: "0 < r" "r < 256 ^ ?k" by (simp_all add: r_def)
  have len: "((length (x # xs) * 8) div 8 + 1) * 8 = 8 * Suc ?k" by simp
  have p: "(2 :: int) ^ (8 * Suc ?k) = 256 * 256 ^ ?k"
    unfolding pow2_bytes by simp
  have "int ?U - 2 ^ (8 * Suc ?k) = - int (255 * 256 ^ ?k + r)"
    unfolding p r_def using U_less by (simp add: of_nat_diff)
  then have abs: "nat \<bar>int ?U - 2 ^ (8 * Suc ?k)\<bar> = 255 * 256 ^ ?k + r"
    by (metis abs_minus_cancel abs_of_nat nat_int)
  have nb: "nat_bytes (255 * 256 ^ ?k + r) = 255 # fixed_bytes ?k r"
    using nat_bytes_split [of 255 r ?k] r by (simp add: nat_bytes_small)
  obtain c0 rest where fb: "fixed_bytes ?k r = c0 # rest"
    by (cases "fixed_bytes ?k r") (use length_fixed_bytes [of ?k r] in auto)
  have v: "bytes_nat (c0 # rest) = r"
    using bytes_nat_fixed_bytes [OF r(2)] by (simp only: fb)
  have v0: "c0 = 0 \<Longrightarrow> bytes_nat rest = r"
    using v by (simp add: bytes_nat_Cons)
  have "int r = 256 ^ ?k - int ?U"
    using U_less by (simp add: r_def of_nat_diff)
  with assms abs nb fb v v0 show ?thesis
    unfolding getBigIntFromSignedBytes_def Let_def len
    by (simp del: power_Suc)
qed

lemma encode_negative:
  assumes "n < 0"
  shows "\<exists>x xs. getSignedBytesFromBigInt n = Some (x # xs) \<and> x AND 0x80 \<noteq> 0
           \<and> int (bytes_nat (x # xs)) - 256 ^ Suc (length xs) = n"
proof -
  define m where "m = nat \<bar>n\<bar>"
  define k where "k = BitLen m div 8"
  define u where "u = nat (n + 2 ^ ((k + 1) * 8))"
  from assms have m: "0 < m" "n = - int m" by (simp_all add: m_def)
  have "BitLen m \<le> 8 * k + 7" unfolding k_def by presburger
  then have "(2 :: nat) ^ BitLen m \<le> 2 ^ (8 * k + 7)" by (rule power_increasing) simp
  also have "(2 :: nat) ^ (8 * k + 7) = 128 * 256 ^ k" by (simp add: power_add power_mult)
  finally have m_le: "m < 128 * 256 ^ k" using BitLen_bound [of m] by simp
  have "(k + 1) * 8 = 8 * Suc k" by simp
  then have p: "(2 :: int) ^ ((k + 1) * 8) = 256 * 256 ^ k"
    unfolding pow2_bytes by (simp only: pow2_bytes power_Suc)
  have u: "u = 256 * 256 ^ k - m"
    unfolding u_def p m(2) by (simp add: nat_diff_distrib' nat_power_eq nat_mult_distrib)
  from u m_le m have u_ge: "128 * 256 ^ k \<le> u" and u_less: "u < 256 * 256 ^ k" by simp_all
  define q where "q = u div 256 ^ k"
  define r where "r = u mod 256 ^ k"
  have ur: "u = q * 256 ^ k + r"
    unfolding q_def r_def by (rule div_mult_mod_eq [symmetric])
  have r: "r < 256 ^ k" by (simp add: r_def)
  from u_less have q_less: "q < 256"
    unfolding q_def by (simp add: less_mult_imp_div_less mult.commute)
  from u_ge have q_ge: "128 \<le> q"
    unfolding q_def by (metis div_le_mono div_mult_self_is_m zero_less_numeral zero_less_power)
  from q_ge q_less r have b: "nat_bytes u = of_nat q # fixed_bytes k r"
    unfolding ur using nat_bytes_split [of q r k] by (simp add: nat_bytes_small)
  from q_ge q_less have top: "(of_nat q :: byte) AND 0x80 \<noteq> 0"
    by (simp add: top_bit_byte unat_of_nat)
  have val: "bytes_nat (of_nat q # fixed_bytes k r) = u"
    using bytes_nat_nat_bytes [of u] b by simp
  have n_eq: "int u - 256 * 256 ^ k = n"
    using u m u_less m_le by (simp add: of_nat_diff)
  have sgn: "sgn n = - 1" and sgn': "sgn n \<noteq> 1" using assms by simp_all
  have unfold: "getSignedBytesFromBigInt n =
     (case nat_bytes u of
        b0 # b1 # bs \<Rightarrow> if b0 = 0xff \<and> b1 AND 0x80 \<noteq> 0 then Some (tl (nat_bytes u))
                        else Some (nat_bytes u)
      | _ \<Rightarrow> Some (nat_bytes u))"
    unfolding getSignedBytesFromBigInt_def Let_def u_def k_def m_def
    by (simp only: if_not_P [OF sgn'] if_P [OF sgn])
  show ?thesis
  proof (cases "\<exists>b1 bs. fixed_bytes k r = b1 # bs \<and> of_nat q = (0xff :: byte) \<and> b1 AND 0x80 \<noteq> 0")
    case True
    then obtain b1 bs where s: "fixed_bytes k r = b1 # bs" "of_nat q = (0xff :: byte)"
      "b1 AND 0x80 \<noteq> 0" by blast
    from s(1) have lk: "Suc (length bs) = k"
      using length_fixed_bytes [of k r] by simp
    from s(2) q_less have q: "q = 255"
      using unat_of_nat_byte [of q] by simp
    have "getSignedBytesFromBigInt n = Some (b1 # bs)"
      unfolding unfold b using s by simp
    moreover have "int (bytes_nat (b1 # bs)) - 256 ^ Suc (length bs) = n"
    proof -
      have "bytes_nat (of_nat q # b1 # bs) =
          unat (of_nat q :: byte) * 256 ^ length (b1 # bs) + bytes_nat (b1 # bs)"
        by (rule bytes_nat_Cons)
      with val q have "u = 255 * 256 ^ k + bytes_nat (b1 # bs)"
        by (simp only: s(1) list.size lk unat_of_nat_byte) (simp add: lk unat_of_nat_byte)
      with n_eq show ?thesis by (simp add: lk)
    qed
    ultimately show ?thesis using s(3) by blast
  next
    case False
    then have "getSignedBytesFromBigInt n = Some (of_nat q # fixed_bytes k r)"
      unfolding unfold b by (auto split: list.splits)
    moreover have "int (bytes_nat (of_nat q # fixed_bytes k r)) -
        256 ^ Suc (length (fixed_bytes k r)) = n"
      using val n_eq by simp
    ultimately show ?thesis using top by blast
  qed
qed

lemma bigInt_round_trip:
  "\<exists>bs. getSignedBytesFromBigInt n = Some bs \<and> getBigIntFromSignedBytes bs = Some n"
proof -
  consider "n = 0" | "0 < n" | "n < 0" by linarith
  then show ?thesis
  proof cases
    case 1
    then show ?thesis
      by (simp add: getSignedBytesFromBigInt_def getBigIntFromSignedBytes_def)
  next
    case 2
    have v: "bytes_nat (nat_bytes (nat n)) = nat n" by (rule bytes_nat_nat_bytes)
    with 2 obtain b0 bs where b: "nat_bytes (nat n) = b0 # bs"
      by (cases "nat_bytes (nat n)") auto
    have z: "getBigIntFromSignedBytes (0 # b0 # bs) = Some (int (bytes_nat (b0 # bs)))"
      by (simp add: getBigIntFromSignedBytes_def bytes_nat_Cons [of 0])
    have nz: "b0 AND 0x80 = 0 \<Longrightarrow>
        getBigIntFromSignedBytes (b0 # bs) = Some (int (bytes_nat (b0 # bs)))"
      by (simp add: getBigIntFromSignedBytes_def)
    from 2 have "sgn n = 1" by simp
    with b v z nz 2 show ?thesis
      by (auto simp add: getSignedBytesFromBigInt_def Let_def word_gt_0)
  next
    case 3
    from encode_negative [OF 3] obtain x xs where
      e: "getSignedBytesFromBigInt n = Some (x # xs)" "x AND 0x80 \<noteq> 0"
        "int (bytes_nat (x # xs)) - 256 ^ Suc (length xs) = n"
      by blast
    from decode_negative [OF e(2), of xs] e(1,3) show ?thesis by simp
  qed
qed

section \<open>The round trip\<close>

lemma sint_of_nat_32: "n < 2 ^ 31 \<Longrightarrow> sint (of_nat n :: 32 word) = int n"
  by (simp add: signed_of_nat signed_take_bit_int_eq_self)

lemma buffer_Read_exact: "buffer_Read (length bs) (bs @ rest) = (bs, None)"
  by (cases bs) (simp_all add: buffer_Read_def)

lemmas write_unfold = serializer_write.simps writeTypeValue.simps call_writer.simps
  binary_Write_def getCodeBytes_def getCodeByte_def writeValueFlagNone_def nullBytes_def

lemmas read_unfold = serializer_read.simps readTypeValue.simps call_reader.simps
  getSerializerToRead_def getCodeByte_def DataType_defs valueFlagNone_def valueFlagNull_def
  longReader_def intReader_def shortReader_def byteReader_def floatReader_def doubleReader_def
  binary_Read_be_bytes be_word_be_bytes

lemma scalar_round_trips:
  "round_trips GoNil [NullType, 0x01]"
  "round_trips (GoInt16 b) ([ShortType, valueFlagNone] @ be_bytes 2 b)"
  "round_trips (GoInt32 c) ([IntType, valueFlagNone] @ be_bytes 4 c)"
  "round_trips (GoInt64 d) ([LongType, valueFlagNone] @ be_bytes 8 d)"
  "round_trips (GoInt e) ([LongType, valueFlagNone] @ be_bytes 8 e)"
  "round_trips (GoUint16 f) ([IntType, valueFlagNone] @ be_bytes 4 (ucast f :: 32 word))"
  "round_trips (GoUint32 g) ([LongType, valueFlagNone] @ be_bytes 8 (ucast g :: 64 word))"
  "round_trips (GoFloat32 h) ([FloatType, valueFlagNone] @ be_bytes 4 h)"
  "round_trips (GoFloat64 i) ([DoubleType, valueFlagNone] @ be_bytes 8 i)"
  by (simp_all add: round_trips_def write_unfold read_unfold)

lemma uint8_round_trips: "round_trips (GoUint8 a) [ByteType, valueFlagNone, a]"
  by (simp add: round_trips_def write_unfold read_unfold binary_Read_def be_word_def)

lemma uuid_round_trips: "round_trips (GoUUID u) ([UUIDType, valueFlagNone] @ be_bytes 16 u)"
  using buffer_Read_exact [of "be_bytes 16 u"]
  by (simp add: round_trips_def write_unfold read_unfold uuidReader_def)

lemma string_round_trips:
  assumes "length s < 2 ^ 31"
  shows "round_trips (GoString s)
           ([StringType, valueFlagNone] @ be_bytes 4 (of_nat (length s) :: 32 word) @ s)"
  using assms buffer_Read_exact [of s]
  by (simp add: round_trips_def write_unfold read_string_header sint_of_nat_32)

lemma bigInt_round_trips:
  assumes "getSignedBytesFromBigInt n = Some bs" and "length bs < 2 ^ 31"
  shows "round_trips (GoBigInt n)
           ([BigIntegerType, valueFlagNone] @ be_bytes 4 (of_nat (length bs) :: 32 word) @ bs)"
proof -
  from bigInt_round_trip [of n] assms(1) have "getBigIntFromSignedBytes bs = Some n" by auto
  with assms show ?thesis
    by (simp add: round_trips_def write_unfold read_unfold bigIntReader_def sint_of_nat_32)
qed

lemma list_loop_round_trips:
  assumes "\<forall>x \<in> set xs. \<exists>bytes. round_trips x bytes"
  shows "\<exists>bs. (\<forall>buffer. write_loop xs buffer = Return (buffer @ bs) None)
           \<and> (\<forall>rest acc. listReader_loop (length xs) (bs @ rest) acc =
                  Return (GoSlice (acc @ map widen xs), length bs) None)"
  using assms
proof (induction xs)
  case Nil
  show ?case by (rule exI [of _ "[]"]) (simp add: listReader_loop.simps)
next
  case (Cons x xs)
  from Cons.prems obtain bx where bx: "round_trips x bx" by auto
  from Cons.IH Cons.prems obtain bs where
    w: "\<And>buffer. write_loop xs buffer = Return (buffer @ bs) None" and
    r: "\<And>rest acc. listReader_loop (length xs) (bs @ rest) acc =
          Return (GoSlice (acc @ map widen xs), length bs) None"
    by auto
  from bx have wx: "\<And>buffer. serializer_write x buffer = Return (buffer @ bx) None"
    and rx: "\<And>rest. serializer_read (bx @ rest) = Return (widen x, length bx) None"
    by (simp_all add: round_trips_def)
  show ?case
  proof (intro exI [of _ "bx @ bs"] conjI allI)
    fix buffer
    show "write_loop (x # xs) buffer = Return (buffer @ bx @ bs) None"
      by (simp add: wx w)
  next
    fix rest acc
    have "listReader_loop (length (x # xs)) ((bx @ bs) @ rest) acc =
        (case listReader_loop (length xs) (bs @ rest) (acc @ [widen x]) of
           Panic \<Rightarrow> Panic
         | Return (v, c') e \<Rightarrow> Return (v, length bx + c') e)"
      using rx [of "bs @ rest"] by (subst listReader_loop.simps) simp
    then show "listReader_loop (length (x # xs)) ((bx @ bs) @ rest) acc =
        Return (GoSlice (acc @ map widen (x # xs)), length (bx @ bs)) None"
      by (simp add: r)
  qed
qed

lemma map_assign_fresh:
  "\<forall>kv \<in> set acc. \<not> go_eq (fst kv) key \<Longrightarrow> map_assign acc key val = acc @ [(key, val)]"
  by (induction acc) auto

lemma keys_distinct_append:
  "keys_distinct (xs @ y # ys) \<Longrightarrow> \<forall>x \<in> set xs. \<not> go_eq x y"
  by (induction xs) auto

lemma map_loop_round_trips:
  assumes "\<forall>kv \<in> set kvs. (\<exists>bytes. round_trips (fst kv) bytes)
             \<and> (\<exists>bytes. round_trips (snd kv) bytes)
             \<and> hashable (widen (fst kv)) \<and> \<not> has_NaN (fst kv)"
  shows "\<exists>bs. (\<forall>buffer. mapWriter_loop kvs buffer = Return (buffer @ bs) None)
           \<and> (\<forall>rest acc. keys_distinct (map fst acc @ map (widen \<circ> fst) kvs) \<longrightarrow>
                  mapReader_loop (length kvs) (bs @ rest) acc =
                    Return (GoMap (acc @ map (map_prod widen widen) kvs), length bs) None)"
  using assms
proof (induction kvs)
  case Nil
  show ?case by (rule exI [of _ "[]"]) (simp add: mapReader_loop.simps)
next
  case (Cons kv kvs)
  obtain k v where kv: "kv = (k, v)" by (cases kv)
  from Cons.prems kv obtain bk bv where bk: "round_trips k bk" and bv: "round_trips v bv"
    and h: "hashable (widen k)" and nan: "\<not> has_NaN k"
    by auto
  from Cons.prems have "\<forall>kv \<in> set kvs. (\<exists>bytes. round_trips (fst kv) bytes)
             \<and> (\<exists>bytes. round_trips (snd kv) bytes)
             \<and> hashable (widen (fst kv)) \<and> \<not> has_NaN (fst kv)"
    by simp
  from Cons.IH [OF this] obtain bs where
    w: "\<And>buffer. mapWriter_loop kvs buffer = Return (buffer @ bs) None" and
    r: "\<And>rest acc. keys_distinct (map fst acc @ map (widen \<circ> fst) kvs) \<Longrightarrow>
          mapReader_loop (length kvs) (bs @ rest) acc =
            Return (GoMap (acc @ map (map_prod widen widen) kvs), length bs) None"
    by blast
  from bk have wk: "\<And>buffer. serializer_write k buffer = Return (buffer @ bk) None"
    and rk: "\<And>rest. serializer_read (bk @ rest) = Return (widen k, length bk) None"
    by (simp_all add: round_trips_def)
  from bv have wv: "\<And>buffer. serializer_write v buffer = Return (buffer @ bv) None"
    and rv: "\<And>rest. serializer_read (bv @ rest) = Return (widen v, length bv) None"
    by (simp_all add: round_trips_def)
  show ?case
  proof (intro exI [of _ "bk @ bv @ bs"] conjI allI impI)
    fix buffer
    show "mapWriter_loop (kv # kvs) buffer = Return (buffer @ bk @ bv @ bs) None"
      by (simp add: kv wk wv w nan)
  next
    fix rest and acc :: "(gvalue \<times> gvalue) list"
    assume d: "keys_distinct (map fst acc @ map (widen \<circ> fst) (kv # kvs))"
    then have fresh: "\<forall>e \<in> set acc. \<not> go_eq (fst e) (widen k)"
      using keys_distinct_append [of "map fst acc" "widen k" "map (widen \<circ> fst) kvs"]
      by (simp add: kv)
    from d have d': "keys_distinct (map fst (acc @ [(widen k, widen v)]) @ map (widen \<circ> fst) kvs)"
      by (simp add: kv)
    have "mapReader_loop (length (kv # kvs)) ((bk @ bv @ bs) @ rest) acc =
        (case mapReader_loop (length kvs) (bs @ rest) (map_assign acc (widen k) (widen v)) of
           Panic \<Rightarrow> Panic
         | Return (m, c'') e \<Rightarrow> Return (m, length bk + length bv + c'') e)"
      using rk [of "bv @ bs @ rest"] rv [of "bs @ rest"] h
      by (subst mapReader_loop.simps) simp
    then show "mapReader_loop (length (kv # kvs)) ((bk @ bv @ bs) @ rest) acc =
        Return (GoMap (acc @ map (map_prod widen widen) (kv # kvs)), length (bk @ bv @ bs)) None"
      by (simp add: map_assign_fresh [OF fresh] r [OF d'] kv)
  qed
qed

lemma list_round_trips:
  assumes "length xs < 2 ^ 31" and "\<forall>x \<in> set xs. \<exists>bytes. round_trips x bytes"
  shows "\<exists>bytes. round_trips (GoSlice xs) bytes \<and> round_trips (GoTypedSlice xs) bytes
           \<and> round_trips (GoArray xs) bytes"
proof -
  from list_loop_round_trips [OF assms(2)] obtain bs where
    w: "\<And>buffer. write_loop xs buffer = Return (buffer @ bs) None" and
    r: "\<And>rest acc. listReader_loop (length xs) (bs @ rest) acc =
          Return (GoSlice (acc @ map widen xs), length bs) None"
    by blast
  let ?bytes = "ListType # valueFlagNone # be_bytes 4 (of_nat (length xs) :: 32 word) @ bs"
  have rd: "serializer_read (?bytes @ rest) = Return (GoSlice (map widen xs), length ?bytes) None"
    for rest
    using read_list_header [of "of_nat (length xs)" "bs @ rest"] r [of rest "[]"] assms(1)
    by (simp add: sint_of_nat_32)
  have "round_trips (GoSlice xs) ?bytes"
    unfolding round_trips_def using rd by (simp add: write_unfold w)
  moreover have "round_trips (GoTypedSlice xs) ?bytes"
    unfolding round_trips_def using rd by (simp add: write_unfold w)
  moreover have "round_trips (GoArray xs) ?bytes"
    unfolding round_trips_def using rd by (simp add: write_unfold w)
  ultimately show ?thesis by blast
qed

lemma map_round_trips:
  assumes "length kvs < 2 ^ 31"
    and "\<forall>kv \<in> set kvs. (\<exists>bytes. round_trips (fst kv) bytes)
             \<and> (\<exists>bytes. round_trips (snd kv) bytes)
             \<and> hashable (widen (fst kv)) \<and> \<not> has_NaN (fst kv)"
    and "keys_distinct (map (widen \<circ> fst) kvs)"
  shows "\<exists>bytes. round_trips (GoMap kvs) bytes"
proof -
  from map_loop_round_trips [OF assms(2)] obtain bs where
    w: "\<And>buffer. mapWriter_loop kvs buffer = Return (buffer @ bs) None" and
    r: "\<And>rest acc. keys_distinct (map fst acc @ map (widen \<circ> fst) kvs) \<Longrightarrow>
          mapReader_loop (length kvs) (bs @ rest) acc =
            Return (GoMap (acc @ map (map_prod widen widen) kvs), length bs) None"
    by blast
  let ?bytes = "MapType # valueFlagNone # be_bytes 4 (of_nat (length kvs) :: 32 word) @ bs"
  have rd: "serializer_read (?bytes @ rest) =
      Return (GoMap (map (map_prod widen widen) kvs), length ?bytes) None" for rest
    using read_map_header [of "of_nat (length kvs)" "bs @ rest"] r [of "[]" rest] assms(1,3)
    by (simp add: sint_of_nat_32)
  have "round_trips (GoMap kvs) ?bytes"
    unfolding round_trips_def using rd by (simp add: write_unfold w)
  then show ?thesis by blast
qed

lemma round_trippable_round_trips: "round_trippable v \<Longrightarrow> \<exists>bytes. round_trips v bytes"
proof (induction v)
  case GoNil
  show ?case using scalar_round_trips(1) by blast
next
  case (GoUint8 x)
  show ?case using uint8_round_trips by blast
next
  case (GoInt16 x)
  show ?case using scalar_round_trips(2) by blast
next
  case (GoInt32 x)
  show ?case using scalar_round_trips(3) by blast
next
  case (GoInt64 x)
  show ?case using scalar_round_trips(4) by blast
next
  case (GoInt x)
  show ?case using scalar_round_trips(5) by blast
next
  case (GoUint16 x)
  show ?case using scalar_round_trips(6) by blast
next
  case (GoUint32 x)
  show ?case using scalar_round_trips(7) by blast
next
  case (GoFloat32 x)
  show ?case using scalar_round_trips(8) by blast
next
  case (GoFloat64 x)
  show ?case using scalar_round_trips(9) by blast
next
  case (GoUUID x)
  show ?case using uuid_round_trips by blast
next
  case (GoString s)
  then show ?case using string_round_trips [of s] by auto
next
  case (GoBigInt n)
  then show ?case using bigInt_round_trips [of n] by (auto split: option.splits)
next
  case (GoSlice xs)
  then have "length xs < 2 ^ 31" and "\<forall>x \<in> set xs. \<exists>bytes. round_trips x bytes" by auto
  from list_round_trips [OF this] show ?case by blast
next
  case (GoTypedSlice xs)
  then have "length xs < 2 ^ 31" and "\<forall>x \<in> set xs. \<exists>bytes. round_trips x bytes" by auto
  from list_round_trips [OF this] show ?case by blast
next
  case (GoArray xs)
  then have "length xs < 2 ^ 31" and "\<forall>x \<in> set xs. \<exists>bytes. round_trips x bytes" by auto
  from list_round_trips [OF this] show ?case by blast
next
  case (GoMap kvs)
  from GoMap.prems have len: "length kvs < 2 ^ 31"
    and d: "keys_distinct (map (widen \<circ> fst) kvs)"
    and each: "\<forall>kv \<in> set kvs. round_trippable (fst kv) \<and> round_trippable (snd kv)
                 \<and> hashable (widen (fst kv)) \<and> \<not> has_NaN (fst kv)"
    by simp_all
  have "\<forall>kv \<in> set kvs. (\<exists>bytes. round_trips (fst kv) bytes)
             \<and> (\<exists>bytes. round_trips (snd kv) bytes)
             \<and> hashable (widen (fst kv)) \<and> \<not> has_NaN (fst kv)"
  proof
    fix kv
    assume m: "kv \<in> set kvs"
    obtain k v where kv: "kv = (k, v)" by (cases kv)
    from each m kv have p: "round_trippable k" "round_trippable v" "hashable (widen k)"
      "\<not> has_NaN k"
      by auto
    from GoMap.IH(1) [OF m, of k] kv p(1) have "\<exists>bytes. round_trips k bytes" by simp
    moreover from GoMap.IH(2) [OF m, of v] kv p(2) have "\<exists>bytes. round_trips v bytes" by simp
    ultimately show "(\<exists>bytes. round_trips (fst kv) bytes)
             \<and> (\<exists>bytes. round_trips (snd kv) bytes)
             \<and> hashable (widen (fst kv)) \<and> \<not> has_NaN (fst kv)"
      using p kv by simp
  qed
  from map_round_trips [OF len this d] show ?case .
qed simp_all

text \<open>
  C1, as stated, fails: a bytecode is written with type code 0x15, for which
  \<^verbatim>\<open>getSerializerToRead\<close> has no reader, so that reading its encoding is an error; and
  a traverser has no writer, so that it has no encoding.
\<close>

theorem round_trip_counterexample:
  "serializer_write (GoBytecode [([86], [])] []) [] =
     Return [0x15, 0, 0, 0, 0, 1, 0, 0, 0, 1, 86, 0, 0, 0, 0, 0, 0, 0, 0] None
   \<and> serializer_read [0x15, 0, 0, 0, 0, 1, 0, 0, 0, 1, 86, 0, 0, 0, 0, 0, 0, 0, 0] =
     Return (GoNil, 1) (Some deserializeDataTypeError)
   \<and> serializer_write (GoTraverser 1 GoNil) [] = Return [] (Some serializeDataTypeError)"
  by (simp add: write_defs read_defs getCodeByte_def DataType_defs be_bytes_4)

text \<open>
  No traverser is written, and no encoding of a bytecode is read (a bytecode is written
  after its type code, 0x15): the codec writes what a client sends and reads what a server
  returns.
\<close>

lemma written_or_read_only:
  "serializer_write (GoTraverser bulk v) buffer = Return buffer (Some serializeDataTypeError)"
  "serializer_write (GoTraverserPtr bulk v) buffer = Return buffer (Some serializeDataTypeError)"
  "serializer_write (GoBytecode steps sources) buffer =
     call_writer (Some W_bytecode) (GoBytecode steps sources) (buffer @ [0x15, 0x00])"
  "serializer_read (0x15 # rest) = Return (GoNil, 1) (Some deserializeDataTypeError)"
  by (simp_all add: serializer_write.simps writeTypeValue.simps read_defs getCodeBytes_def
      getCodeByte_def writeValueFlagNone_def valueFlagNone_def DataType_defs)

text \<open>
  The conditions on the keys are needed. A map with an array as a key is written, the array
  as a list, and reading it back panics: the key read is a \<^verbatim>\<open>[]interface{}\<close>, which
  cannot be hashed. An array key that holds a NaN makes the writer panic.
\<close>

lemma array_key_is_not_read_back:
  "serializer_write (GoMap [(GoArray [GoInt32 1], GoInt32 7)]) [] =
     Return [0x0a, 0, 0, 0, 0, 1, 0x09, 0, 0, 0, 0, 1, 0x01, 0, 0, 0, 0, 1, 0x01, 0, 0, 0, 0, 7] None
   \<and> serializer_read
        [0x0a, 0, 0, 0, 0, 1, 0x09, 0, 0, 0, 0, 1, 0x01, 0, 0, 0, 0, 1, 0x01, 0, 0, 0, 0, 7] = Panic
   \<and> serializer_write (GoMap [(GoArray [GoFloat32 0x7FC00000], GoInt32 7)]) [] = Panic"
  by (simp add: write_defs read_defs DataType_defs be_bytes_4 isNaN32_def)

lemma round_trippable_key:
  assumes "round_trippable k"
  shows "hashable (widen k) \<longleftrightarrow>
           (\<forall>xs. k \<noteq> GoSlice xs \<and> k \<noteq> GoTypedSlice xs \<and> k \<noteq> GoArray xs)
           \<and> (\<forall>kvs. k \<noteq> GoMap kvs)"
  using assms by (cases k) simp_all

text \<open>
  C1, amended. For every value built from null, \<^verbatim>\<open>uint8\<close>, \<^verbatim>\<open>int16\<close>, \<^verbatim>\<open>int32\<close>,
  \<^verbatim>\<open>int64\<close>, \<^verbatim>\<open>int\<close>, \<^verbatim>\<open>uint16\<close>, \<^verbatim>\<open>uint32\<close>, big integers, floats, strings,
  UUIDs, lists (slices and arrays) and maps, in which every length written as an Int32 is
  below \<open>2 ^ 31\<close> and no key of a map is a slice, an array, a map or a NaN, or is equal, once
  widened, to another key of that map, the fully-qualified encoding exists, is the same
  whatever the buffer holds already, and is read back by \<^verbatim>\<open>read\<close> as the value, its integers
  widened and its slices and arrays as \<^verbatim>\<open>[]interface{}\<close>, however the buffer goes on
  after it.
\<close>

theorem round_trip:
  assumes "round_trippable v"
  shows "\<exists>bytes. (\<forall>buffer. serializer_write v buffer = Return (buffer @ bytes) None)
           \<and> (\<forall>rest. serializer_read (bytes @ rest) = Return (widen v, length bytes) None)"
  using round_trippable_round_trips [OF assms] by (simp add: round_trips_def)

theorem round_trip_witness:
  "round_trippable (GoMap [(GoString [97], GoSlice [GoInt32 1, GoInt 2, GoInt32 3]),
                           (GoString [98], GoNil)])
   \<and> serializer_write (GoMap [(GoString [97], GoSlice [GoInt32 1, GoInt 2, GoInt32 3]),
                               (GoString [98], GoNil)]) [] =
       Return [10, 0, 0, 0, 0, 2, 3, 0, 0, 0, 0, 1, 97, 9, 0, 0, 0, 0, 3, 1, 0, 0, 0, 0, 1,
               2, 0, 0, 0, 0, 0, 0, 0, 0, 2, 1, 0, 0, 0, 0, 3, 3, 0, 0, 0, 0, 1, 98, 254, 1] None
   \<and> serializer_read
        [10, 0, 0, 0, 0, 2, 3, 0, 0, 0, 0, 1, 97, 9, 0, 0, 0, 0, 3, 1, 0, 0, 0, 0, 1,
         2, 0, 0, 0, 0, 0, 0, 0, 0, 2, 1, 0, 0, 0, 0, 3, 3, 0, 0, 0, 0, 1, 98, 254, 1] =
       Return (GoMap [(GoString [97], GoSlice [GoInt32 1, GoInt64 2, GoInt32 3]),
                      (GoString [98], GoNil)], 50) None"
proof -
  let ?v = "GoMap [(GoString [97], GoSlice [GoInt32 1, GoInt 2, GoInt32 3]),
                   (GoString [98], GoNil)]"
  let ?bytes = "[10, 0, 0, 0, 0, 2, 3, 0, 0, 0, 0, 1, 97, 9, 0, 0, 0, 0, 3, 1, 0, 0, 0, 0, 1,
         2, 0, 0, 0, 0, 0, 0, 0, 0, 2, 1, 0, 0, 0, 0, 3, 3, 0, 0, 0, 0, 1, 98, 254, 1] :: byte list"
  have rt: "round_trippable ?v" by simp
  have w: "serializer_write ?v [] = Return ?bytes None"
    by (simp add: write_defs DataType_defs be_bytes_4 be_bytes_8)
  from round_trip [OF rt] obtain bytes where
    b: "\<And>buffer. serializer_write ?v buffer = Return (buffer @ bytes) None"
       "\<And>rest. serializer_read (bytes @ rest) = Return (widen ?v, length bytes) None"
    by blast
  from b(1) [of "[]"] w have "bytes = ?bytes" by simp
  with b(2) [of "[]"] have "serializer_read ?bytes = Return (widen ?v, length ?bytes) None"
    by simp
  with rt w show ?thesis by simp
qed

end
